theory Spec2Isabelle
  imports Complex_Main
begin

section \<open>Data model\<close>

text \<open>
  The interview state is the Python dictionary \<open>InterviewState\<close> of
  \<open>agents/sme_react.py\<close> (a \<open>TypedDict\<close> with \<open>total=False\<close>): every key
  may be absent, and the code reads it with \<open>state.get(key, default)\<close>. Each key is
  therefore an optional field; \<open>None\<close> is the absent key.
\<close>

datatype mode = Route | Ask | AwaitAnswer | Feedback | Done

record panel_entry =
  name :: "string option"
  system_prompt :: "string option"

record turn =
  agent :: string
  question :: string
  h_user_answer :: string
  feedback :: string

record istate =
  prompts :: "panel_entry list option"
  resume_notes :: "string option"
  history :: "turn list option"
  turn_index :: "int option"
  max_turns :: "int option"
  current_agent :: "string option"
  mode :: "mode option"
  last_question :: "string option"
  last_feedback :: "string option"
  user_answer :: "string option"
  force_stop :: "bool option"

text \<open>
  The object \<open>LangGraphOrchestrator\<close>: its configuration, whether the graph has been
  compiled (\<open>self._app is not None\<close>), and the current state dictionary.
\<close>

record orchestrator =
  panel :: "panel_entry list"
  o_resume_notes :: string
  o_max_turns :: int
  app :: bool
  state :: istate

datatype error =
    GenerationError
  | ZeroDivisionError
  | IndexError
  | GraphError
  | GraphRecursionError
  | RuntimeError
  | AttributeError
  | ValueError

section \<open>Strings\<close>

text \<open>
  A string is a list of characters, and a character stands for a code point below 256.
  \<open>is_space\<close> holds of the code points below 256 for which \<open>str.isspace()\<close> holds, so
  \<open>strip\<close> is \<open>str.strip()\<close> on such text; \<open>join\<close> is \<open>sep.join(xs)\<close>; \<open>str_int\<close> is
  the decimal text an f-string gives an integer.
\<close>

definition nl :: string where
  "nl = [CHR 0x0A]"

definition is_space :: "char \<Rightarrow> bool" where
  "is_space c = (c \<in> set [CHR 0x09, CHR 0x0A, CHR 0x0B, CHR 0x0C, CHR 0x0D,
                              CHR 0x1C, CHR 0x1D, CHR 0x1E, CHR 0x1F, CHR '' '',
                              CHR 0x85, CHR 0xA0])"

definition strip :: "string \<Rightarrow> string" where
  "strip s = rev (dropWhile is_space (rev (dropWhile is_space s)))"

fun join :: "string \<Rightarrow> string list \<Rightarrow> string" where
  "join sep [] = []"
| "join sep [x] = x"
| "join sep (x # y # ys) = x @ sep @ join sep (y # ys)"

definition digit_char :: "nat \<Rightarrow> char" where
  "digit_char d = char_of (48 + d)"

fun str_nat :: "nat \<Rightarrow> string" where
  "str_nat n = (if n < 10 then [digit_char n] else str_nat (n div 10) @ [digit_char (n mod 10)])"

declare str_nat.simps [simp del]

definition str_int :: "int \<Rightarrow> string" where
  "str_int i = (if i < 0 then CHR ''-'' # str_nat (nat (- i)) else str_nat (nat i))"

section \<open>Reading the state dictionary\<close>

definition get_turn_index :: "istate \<Rightarrow> int" where
  "get_turn_index s = (case turn_index s of None \<Rightarrow> 0 | Some n \<Rightarrow> n)"

definition get_max_turns :: "orchestrator \<Rightarrow> istate \<Rightarrow> int" where
  "get_max_turns self s = (case max_turns s of None \<Rightarrow> o_max_turns self | Some n \<Rightarrow> n)"

definition get_force_stop :: "istate \<Rightarrow> bool" where
  "get_force_stop s = (force_stop s = Some True)"

definition get_history :: "istate \<Rightarrow> turn list" where
  "get_history s = (case history s of None \<Rightarrow> [] | Some h \<Rightarrow> h)"

definition stopping :: "orchestrator \<Rightarrow> istate \<Rightarrow> bool" where
  "stopping self s = (get_force_stop s \<or> get_turn_index s \<ge> get_max_turns self s)"

definition entry_name :: "nat \<Rightarrow> panel_entry \<Rightarrow> string" where
  "entry_name idx p = (case name p of None \<Rightarrow> ''Expert '' @ str_int (int idx + 1) | Some n \<Rightarrow> n)"

section \<open>The routing node\<close>

text \<open>
  \<open>route\<close> of \<open>init_graph\<close>. The stopping test comes first; the round robin runs only
  when the mode is absent or \<open>route\<close>; any other mode leaves the state as it is.
  \<open>% len(self.panel)\<close> raises \<open>ZeroDivisionError\<close> on an empty panel, before any
  key is written.
\<close>

definition route :: "orchestrator \<Rightarrow> istate \<Rightarrow> error + istate" where
  "route self s =
     (if stopping self s then Inr (s\<lparr>mode := Some Done\<rparr>)
      else if mode s = None \<or> mode s = Some Route then
        (if panel self = [] then Inl ZeroDivisionError
         else
           (let idx = nat (get_turn_index s mod int (length (panel self)))
            in Inr (s\<lparr>current_agent := Some (entry_name idx (panel self ! idx)),
                      mode := Some Ask\<rparr>)))
      else Inr s)"

definition done_node :: "istate \<Rightarrow> istate" where
  "done_node s = s\<lparr>mode := Some Done\<rparr>"


section \<open>The text-generation service and observable effects\<close>

text \<open>
  \<open>LLM.invoke\<close> of \<open>llm.py\<close> is the external service. A plain call raises or returns
  the message content, which may be \<open>None\<close>; a streaming call yields text pieces and then
  either ends or raises (the flag). The service is a parameter of every operation: a record
  of arbitrary functions of the two prompts. The trace of an operation lists, in order, the
  calls it makes to the service and the events it emits on the socket.
\<close>

datatype llm_result = Raises | Returns "string option"

record llm =
  complete :: "string \<Rightarrow> string \<Rightarrow> llm_result"
  complete_json :: "string \<Rightarrow> string \<Rightarrow> llm_result"
  stream :: "string \<Rightarrow> string \<Rightarrow> string list \<times> bool"

datatype event = QuestionStart string | QuestionChunk string | QuestionEnd string

datatype effect =
    Invoke string string
  | InvokeJson string string
  | InvokeStream string string
  | Emit event

fun events_of :: "effect list \<Rightarrow> event list" where
  "events_of [] = []"
| "events_of (Emit e # xs) = e # events_of xs"
| "events_of (x # xs) = events_of xs"

definition or_empty :: "string option \<Rightarrow> string" where
  "or_empty r = (case r of None \<Rightarrow> [] | Some t \<Rightarrow> t)"

section \<open>The persona node\<close>

definition ask_instr :: string where
  "ask_instr = ''Craft the next interview question. Ask a single, clear, challenging question tailored to the role and context.''"

definition fb_instr :: string where
  "fb_instr = ''Provide brief feedback in 2-4 bullets: strengths and improvements.''"

definition history_line :: "turn \<Rightarrow> string" where
  "history_line h = ''Q by '' @ agent h @ '': '' @ question h @ nl @ ''User: '' @ h_user_answer h"

text \<open>
  \<open>_compose_context\<close>; the \<open>ask\<close> branch of the persona node builds the same items.
  \<open>[-5:]\<close> keeps the last five turns.
\<close>

definition compose_context :: "istate \<Rightarrow> string" where
  "compose_context s =
     (let items1 = (case resume_notes s of
                      None \<Rightarrow> []
                    | Some n \<Rightarrow> if n = [] then [] else [''Resume Notes:'' @ nl @ n]);
          recent = drop (length (get_history s) - 5) (get_history s);
          items2 = (if recent = [] then []
                    else [''History (most recent last):'' @ nl @ join nl (map history_line recent)])
      in join (nl @ nl) (items1 @ items2))"

definition ask_prompt :: "istate \<Rightarrow> string" where
  "ask_prompt s = compose_context s @ nl @ nl @ ask_instr"

definition feedback_prompt :: "istate \<Rightarrow> string" where
  "feedback_prompt s =
     ''Question: '' @ or_empty (last_question s) @ nl @ ''Answer: '' @ or_empty (user_answer s)
       @ nl @ nl @ fb_instr"

text \<open>
  The function returned by \<open>build_sme_node\<close>. The result is the exception raised (if any),
  the contents of the state dictionary when the function leaves, and the trace. The service
  is called before any key is written, in both branches.
\<close>

definition node :: "string \<Rightarrow> llm \<Rightarrow> istate \<Rightarrow> error option \<times> istate \<times> effect list" where
  "node sp l s =
     (let nm = (case current_agent s of None \<Rightarrow> ''Expert'' | Some a \<Rightarrow> a) in
      if mode s = Some Ask then
        (let user = ask_prompt s in
         case complete l sp user of
           Raises \<Rightarrow> (Some GenerationError, s, [Invoke sp user])
         | Returns r \<Rightarrow>
             (None,
              s\<lparr>last_question := Some (strip (or_empty r)), mode := Some AwaitAnswer\<rparr>,
              [Invoke sp user]))
      else if mode s = Some Feedback then
        (let q = or_empty (last_question s);
             a = or_empty (user_answer s);
             user = feedback_prompt s in
         case complete l sp user of
           Raises \<Rightarrow> (Some GenerationError, s, [Invoke sp user])
         | Returns r \<Rightarrow>
             (let fb = strip (or_empty r) in
              (None,
               s\<lparr>last_feedback := Some fb,
                 history := Some (get_history s @
                   [\<lparr>agent = nm, question = q, h_user_answer = a, feedback = fb\<rparr>]),
                 mode := Some Route\<rparr>,
               [Invoke sp user])))
      else (None, s, []))"

section \<open>The compiled graph\<close>

text \<open>
  \<open>init_graph\<close> builds a graph with the nodes \<open>route\<close>, \<open>sme_i\<close> for each panel
  entry, and \<open>done\<close>; \<open>route\<close> is the entry point. After \<open>route\<close> the edge is chosen by
  \<open>from_route_cond\<close>, after a persona node by \<open>from_sme_cond\<close>, and \<open>done\<close> leads to the
  end. The edge table after \<open>route\<close> names \<open>sme_0\<close>, \<open>sme_1\<close> and \<open>sme_2\<close> only.
  \<open>invoke\<close> walks the graph on its own copy of the state dictionary and returns the final
  state. An exception in a node leaves the walk; the result then carries the exception and
  the walk's state at that moment, of which the caller never sees the dictionary but does
  see the history list (below). The walk is bounded by the graph library's step limit
  (25 by default).
\<close>

datatype node_id = N_route | N_sme nat | N_done | N_end

fun first_index :: "('a \<Rightarrow> bool) \<Rightarrow> 'a list \<Rightarrow> nat option" where
  "first_index P [] = None"
| "first_index P (x # xs) = (if P x then Some 0 else map_option Suc (first_index P xs))"

text \<open>
  The loop \<open>for i, p in enumerate(self.panel): if p.get("name") == cur\<close>, with index 0
  when no entry has the name.
\<close>

definition agent_index :: "panel_entry list \<Rightarrow> string \<Rightarrow> nat" where
  "agent_index ps cur = (case first_index (\<lambda>p. name p = Some cur) ps of Some i \<Rightarrow> i | None \<Rightarrow> 0)"

definition from_route_cond :: "orchestrator \<Rightarrow> istate \<Rightarrow> node_id" where
  "from_route_cond self s =
     (if mode s = Some Done then N_done
      else case current_agent s of
        None \<Rightarrow> N_end
      | Some cur \<Rightarrow>
          if cur = [] then N_end
          else N_sme (agent_index (panel self) cur))"

definition from_sme_cond :: "istate \<Rightarrow> node_id" where
  "from_sme_cond s = (if mode s = Some Route then N_route else N_end)"

definition sme_prompt :: "panel_entry \<Rightarrow> string" where
  "sme_prompt p = (case system_prompt p of None \<Rightarrow> ''You are an expert interviewer.'' | Some t \<Rightarrow> t)"

fun run :: "nat \<Rightarrow> orchestrator \<Rightarrow> llm \<Rightarrow> node_id \<Rightarrow> istate \<Rightarrow>
    (error \<times> istate + istate) \<times> effect list" where
  "run n self l N_end s = (Inr s, [])"
| "run 0 self l nd s = (Inl (GraphRecursionError, s), [])"
| "run (Suc n) self l N_route s =
     (case route self s of
        Inl e \<Rightarrow> (Inl (e, s), [])
      | Inr s' \<Rightarrow> run n self l (from_route_cond self s') s')"
| "run (Suc n) self l (N_sme i) s =
     (if i < length (panel self) \<and> i < 3 then
        (case node (sme_prompt (panel self ! i)) l s of
           (Some e, s', t) \<Rightarrow> (Inl (e, s'), t)
         | (None, s', t) \<Rightarrow>
             (case run n self l (from_sme_cond s') s' of (r, t') \<Rightarrow> (r, t @ t')))
      else (Inl (GraphError, s), []))"
| "run (Suc n) self l N_done s = run n self l N_end (done_node s)"

definition recursion_limit :: nat where
  "recursion_limit = 25"

definition invoke :: "orchestrator \<Rightarrow> llm \<Rightarrow> istate \<Rightarrow>
    (error \<times> istate + istate) \<times> effect list" where
  "invoke self l s = run recursion_limit self l N_route s"

text \<open>
  The history is a list object that the dictionary \<open>self.state\<close> and the walk's copy both
  refer to, and the feedback branch appends to it in place (\<open>hist.append\<close>). When a walk
  raises, \<open>self.state\<close> is not rebound, but its history list is the one the walk has
  appended to. \<open>leak s sr\<close> is the dictionary \<open>s\<close> the caller passed in, as it stands after
  a walk that raised in state \<open>sr\<close>. Without a \<open>history\<close> key the node appends to a fresh
  list of its own and \<open>s\<close> is as it was.
\<close>

definition leak :: "istate \<Rightarrow> istate \<Rightarrow> istate" where
  "leak s sr = (case history s of None \<Rightarrow> s | Some h \<Rightarrow> s\<lparr>history := history sr\<rparr>)"

section \<open>The orchestrator's operations\<close>

definition empty_state :: istate where
  "empty_state = \<lparr>prompts = None, resume_notes = None, history = None, turn_index = None,
     max_turns = None, current_agent = None, mode = None, last_question = None,
     last_feedback = None, user_answer = None, force_stop = None\<rparr>"

definition new_orchestrator :: "int \<Rightarrow> orchestrator" where
  "new_orchestrator mt = \<lparr>panel = [], o_resume_notes = [], o_max_turns = mt, app = False,
     state = empty_state\<rparr>"

text \<open>
  \<open>init_graph\<close> assigns the panel and the notes, builds and compiles the graph, and only
  then sets the state. The edge table names \<open>sme_0\<close>, \<open>sme_1\<close> and \<open>sme_2\<close>, so
  compiling a graph with fewer than three persona nodes raises \<open>ValueError\<close>; the call then
  leaves \<open>_app\<close> and the state as they were. \<open>started p notes mt\<close> is the orchestrator
  that \<open>LangGraphOrchestrator(max_turns=mt)\<close> is after a call of \<open>init_graph\<close> that
  returned.
\<close>

definition initial_state :: "panel_entry list \<Rightarrow> string \<Rightarrow> int \<Rightarrow> istate" where
  "initial_state p notes mt =
     \<lparr>prompts = Some p, resume_notes = Some notes, history = Some [],
      turn_index = Some 0, max_turns = Some mt, current_agent = None,
      mode = Some Route, last_question = None, last_feedback = None, user_answer = None,
      force_stop = Some False\<rparr>"

definition init_graph ::
  "panel_entry list \<Rightarrow> string \<Rightarrow> orchestrator \<Rightarrow> (error + unit) \<times> orchestrator" where
  "init_graph p notes self =
     (if length p < 3 then (Inl ValueError, self\<lparr>panel := p, o_resume_notes := notes\<rparr>)
      else (Inr (),
            self\<lparr>panel := p, o_resume_notes := notes, app := True,
                 state := initial_state p notes (o_max_turns self)\<rparr>))"

definition started :: "panel_entry list \<Rightarrow> string \<Rightarrow> int \<Rightarrow> orchestrator" where
  "started p notes mt =
     (new_orchestrator mt)\<lparr>panel := p, o_resume_notes := notes, app := True,
        state := initial_state p notes mt\<rparr>"

text \<open>
  Each operation returns its result or the exception it raises, the orchestrator as the
  call leaves it (keys written before an exception stay written, and so does a turn
  appended to the history), and the trace.
\<close>

definition next_question ::
  "llm \<Rightarrow> orchestrator \<Rightarrow> (error + string \<times> string \<times> bool) \<times> orchestrator \<times> effect list" where
  "next_question l self =
     (if \<not> app self then (Inl RuntimeError, self, [])
      else
        (let s0 = (state self)\<lparr>mode := Some Route\<rparr> in
         case invoke self l s0 of
           (Inl (e, sr), t1) \<Rightarrow> (Inl e, self\<lparr>state := leak s0 sr\<rparr>, t1)
         | (Inr s1, t1) \<Rightarrow>
             (case invoke self l s1 of
                (Inl (e, sr), t2) \<Rightarrow> (Inl e, self\<lparr>state := leak s1 sr\<rparr>, t1 @ t2)
              | (Inr s2, t2) \<Rightarrow>
                  (Inr (or_empty (last_question s2),
                        (case current_agent s2 of None \<Rightarrow> ''Expert'' | Some a \<Rightarrow> a),
                        mode s2 = Some Done),
                   self\<lparr>state := s2\<rparr>, t1 @ t2))))"

definition process_user_answer ::
  "llm \<Rightarrow> string \<Rightarrow> orchestrator \<Rightarrow> (error + bool) \<times> orchestrator \<times> effect list" where
  "process_user_answer l a self =
     (if \<not> app self then (Inl RuntimeError, self, [])
      else
        (let s0 = (state self)\<lparr>user_answer := Some a, mode := Some Feedback\<rparr> in
         case invoke self l s0 of
           (Inl (e, sr), t1) \<Rightarrow> (Inl e, self\<lparr>state := leak s0 sr\<rparr>, t1)
         | (Inr s1, t1) \<Rightarrow>
             (let s2 = s1\<lparr>turn_index := Some (get_turn_index s1 + 1)\<rparr> in
              case invoke self l s2 of
                (Inl (e, sr), t2) \<Rightarrow> (Inl e, self\<lparr>state := leak s2 sr\<rparr>, t1 @ t2)
              | (Inr s3, t2) \<Rightarrow> (Inr (mode s3 = Some Done), self\<lparr>state := s3\<rparr>, t1 @ t2))))"

definition stop :: "orchestrator \<Rightarrow> orchestrator" where
  "stop self = self\<lparr>state := (state self)\<lparr>force_stop := Some True\<rparr>\<rparr>"

definition summary_line :: "turn \<Rightarrow> string" where
  "summary_line h =
     ''Q: '' @ question h @ nl @ ''A: '' @ h_user_answer h @ nl @ ''Feedback: '' @ feedback h"

definition summary_prompt :: string where
  "summary_prompt = ''Using the interview transcript and feedback, write a concise summary for the candidate: What went well and what to improve. Include actionable tips.''"

definition summary_system :: string where
  "summary_system = ''You are an interview coach who writes concise, helpful summaries.''"

definition summary :: "llm \<Rightarrow> orchestrator \<Rightarrow> (error + string) \<times> effect list" where
  "summary l self =
     (if get_history (state self) = [] then (Inr ''No interview conducted.'', [])
      else
        (let user = join (nl @ nl) (map summary_line (get_history (state self)))
                      @ nl @ nl @ summary_prompt in
         case complete l summary_system user of
           Raises \<Rightarrow> (Inl GenerationError, [Invoke summary_system user])
         | Returns r \<Rightarrow> (Inr (strip (or_empty r)), [Invoke summary_system user])))"

text \<open>
  \<open>stream_next_question\<close>. It writes \<open>mode\<close> before it touches \<open>self._app\<close>, and does
  not test that the graph exists. The streaming call is made after the start event; every
  piece is emitted as it is appended.
\<close>

definition stream_next_question ::
  "llm \<Rightarrow> orchestrator \<Rightarrow> (error + string \<times> string \<times> bool) \<times> orchestrator \<times> effect list" where
  "stream_next_question l self =
     (let s0 = (state self)\<lparr>mode := Some Route\<rparr> in
      if \<not> app self then (Inl AttributeError, self\<lparr>state := s0\<rparr>, [])
      else case invoke self l s0 of
        (Inl (e, sr), t1) \<Rightarrow> (Inl e, self\<lparr>state := leak s0 sr\<rparr>, t1)
      | (Inr s1, t1) \<Rightarrow>
          if mode s1 = Some Done then (Inr ([], [], True), self\<lparr>state := s1\<rparr>, t1)
          else
            (let ag = (case current_agent s1 of None \<Rightarrow> ''Expert'' | Some a \<Rightarrow> a);
                 t2 = t1 @ [Emit (QuestionStart ag)];
                 idx = agent_index (panel self) ag
             in if panel self = [] then (Inl IndexError, self\<lparr>state := s1\<rparr>, t2)
                else
                  (let sp = sme_prompt (panel self ! idx);
                       user = ask_prompt s1;
                       t3 = t2 @ [InvokeStream sp user]
                   in case stream l sp user of
                     (pieces, raised) \<Rightarrow>
                       (let t4 = t3 @ map (\<lambda>piece. Emit (QuestionChunk piece)) pieces in
                        if raised then (Inl GenerationError, self\<lparr>state := s1\<rparr>, t4)
                        else
                          (let q = strip (concat pieces);
                               s2 = s1\<lparr>last_question := Some q, mode := Some AwaitAnswer\<rparr>
                           in (Inr (q, ag, mode s2 = Some Done), self\<lparr>state := s2\<rparr>,
                               t4 @ [Emit (QuestionEnd ag)]))))))"


section \<open>Sequences of operations\<close>

text \<open>
  The operations a caller can apply to an initialised orchestrator, each with the service
  as it answers during that call. \<open>apply_op\<close> keeps the orchestrator the call leaves,
  whether it returned or raised.
\<close>

datatype op = NextQuestion | ProcessUserAnswer string | StreamNextQuestion | Stop

definition apply_op :: "llm \<Rightarrow> op \<Rightarrow> orchestrator \<Rightarrow> orchestrator" where
  "apply_op l opn self =
     (case opn of
        NextQuestion \<Rightarrow> fst (snd (next_question l self))
      | ProcessUserAnswer a \<Rightarrow> fst (snd (process_user_answer l a self))
      | StreamNextQuestion \<Rightarrow> fst (snd (stream_next_question l self))
      | Stop \<Rightarrow> stop self)"

definition exec :: "(llm \<times> op) list \<Rightarrow> orchestrator \<Rightarrow> orchestrator" where
  "exec steps self = foldl (\<lambda>x (l, opn). apply_op l opn x) self steps"

section \<open>Panel proposal\<close>

text \<open>
  \<open>propose_panel_from_jd\<close> of \<open>agents/panel_builder.py\<close>. The value \<open>json.loads\<close>
  returns is a JSON value; the parser itself is a parameter (\<open>None\<close> when it raises).
  A dictionary is the list of its items. Every exception raised after the call to the
  service is caught and leads to the fallback panel; the normalised entries keep whatever
  truthy JSON value the object holds under each key.
\<close>

datatype json =
    JNull
  | JBool bool
  | JInt int
  | JFloat real
  | JStr string
  | JArr "json list"
  | JObj "(string \<times> json) list"

definition truthy :: "json \<Rightarrow> bool" where
  "truthy v =
     (case v of
        JNull \<Rightarrow> False
      | JBool b \<Rightarrow> b
      | JInt i \<Rightarrow> i \<noteq> 0
      | JFloat r \<Rightarrow> r \<noteq> 0
      | JStr t \<Rightarrow> t \<noteq> []
      | JArr xs \<Rightarrow> xs \<noteq> []
      | JObj kvs \<Rightarrow> kvs \<noteq> [])"

record jd_entry =
  je_name :: json
  je_system_prompt :: json

definition JD_PANEL_PROMPT :: string where
  "JD_PANEL_PROMPT =
     ''You are configuring a mock interview panel based on a given Job Description (JD). ''
     @ ''Choose exactly 3 SME roles and write a concise, effective system prompt for each SME to conduct interviews. ''
     @ ''Return JSON with an array '' @ [CHR 0x27] @ ''panel'' @ [CHR 0x27]
     @ '' of 3 objects: {name, system_prompt}. Keep prompts under 200 words each.''"

definition get_or :: "(string \<times> json) list \<Rightarrow> string \<Rightarrow> json \<Rightarrow> json" where
  "get_or kvs k d = (case map_of kvs k of None \<Rightarrow> d | Some v \<Rightarrow> if truthy v then v else d)"

fun normalize_entries :: "nat \<Rightarrow> json list \<Rightarrow> jd_entry list option" where
  "normalize_entries i [] = Some []"
| "normalize_entries i (p # ps) =
     (case p of
        JObj kvs \<Rightarrow>
          (case normalize_entries (Suc i) ps of
             None \<Rightarrow> None
           | Some out \<Rightarrow>
               Some (\<lparr>je_name = get_or kvs ''name'' (JStr (''Expert '' @ str_int (int i + 1))),
                       je_system_prompt = get_or kvs ''system_prompt''
                         (JStr ''You are a helpful expert interviewer.'')\<rparr> # out))
      | _ \<Rightarrow> None)"

definition fallback_panel :: "jd_entry list" where
  "fallback_panel =
     [\<lparr>je_name = JStr ''Domain Expert'',
        je_system_prompt = JStr ''You are a domain expert interviewer.''\<rparr>,
      \<lparr>je_name = JStr ''Systems Expert'',
        je_system_prompt = JStr ''You are a systems design interviewer.''\<rparr>,
      \<lparr>je_name = JStr ''Behavioral Expert'',
        je_system_prompt = JStr ''You are a behavioral interviewer.''\<rparr>]"

definition parse_panel :: "(string \<Rightarrow> json option) \<Rightarrow> string option \<Rightarrow> jd_entry list option" where
  "parse_panel loads content =
     (case content of
        None \<Rightarrow> None
      | Some c \<Rightarrow>
          (case loads c of
             Some (JObj kvs) \<Rightarrow>
               (case map_of kvs ''panel'' of
                  Some (JArr ps) \<Rightarrow> if length ps = 3 then normalize_entries 0 ps else None
                | _ \<Rightarrow> None)
           | _ \<Rightarrow> None))"

definition jd_user_prompt :: "string \<Rightarrow> string" where
  "jd_user_prompt jd_text =
     ''JD:'' @ nl @ take 4000 jd_text @ nl @ nl
       @ ''Return JSON with array '' @ [CHR 0x27] @ ''panel'' @ [CHR 0x27]
       @ '' of 3 objects as specified.''"

definition propose_panel_from_jd ::
  "(string \<Rightarrow> json option) \<Rightarrow> llm \<Rightarrow> string \<Rightarrow> (error + jd_entry list) \<times> effect list" where
  "propose_panel_from_jd loads l jd_text =
     (let user = jd_user_prompt jd_text
      in case complete_json l JD_PANEL_PROMPT user of
        Raises \<Rightarrow> (Inl GenerationError, [InvokeJson JD_PANEL_PROMPT user])
      | Returns content \<Rightarrow>
          (Inr (case parse_panel loads content of None \<Rightarrow> fallback_panel | Some out \<Rightarrow> out),
           [InvokeJson JD_PANEL_PROMPT user]))"

text \<open>
  The shape the specification asks of a parsed result: an object whose \<open>panel\<close> is a
  list of exactly three objects.
\<close>

definition is_obj :: "json \<Rightarrow> bool" where
  "is_obj v = (case v of JObj kvs \<Rightarrow> True | _ \<Rightarrow> False)"

definition three_objects :: "json \<Rightarrow> bool" where
  "three_objects data =
     (case data of
        JObj kvs \<Rightarrow>
          (case map_of kvs ''panel'' of
             Some (JArr ps) \<Rightarrow> length ps = 3 \<and> list_all is_obj ps
           | _ \<Rightarrow> False)
      | _ \<Rightarrow> False)"

section \<open>States along a turn\<close>

text \<open>
  Names for the states an operation passes through. \<open>speaker\<close> is the name the routing
  step selects at the current \<open>turn_index\<close> and \<open>speaker_prompt\<close> the system prompt of
  the persona node that answers to a name; \<open>routed\<close> is the state after the routing step
  picked the speaker, \<open>asked\<close> after a question was stored, \<open>answered\<close> after
  \<open>process_user_answer\<close> stored the answer, \<open>judged\<close> after the feedback was folded
  into the history, \<open>counted\<close> after the turn counter was incremented and \<open>settled\<close>
  after the last routing step of \<open>process_user_answer\<close>.
\<close>

definition speaker :: "orchestrator \<Rightarrow> istate \<Rightarrow> string" where
  "speaker self s = entry_name (nat (get_turn_index s mod int (length (panel self))))
                      (panel self ! nat (get_turn_index s mod int (length (panel self))))"

definition speaker_prompt :: "orchestrator \<Rightarrow> string \<Rightarrow> string" where
  "speaker_prompt self cur = sme_prompt (panel self ! agent_index (panel self) cur)"

definition routed :: "orchestrator \<Rightarrow> istate \<Rightarrow> istate" where
  "routed self s =
     s\<lparr>current_agent :=
         Some (entry_name (nat (get_turn_index s mod int (length (panel self))))
                 (panel self ! nat (get_turn_index s mod int (length (panel self))))),
       mode := Some Ask\<rparr>"

definition asked :: "string option \<Rightarrow> istate \<Rightarrow> istate" where
  "asked r s = s\<lparr>last_question := Some (strip (or_empty r)), mode := Some AwaitAnswer\<rparr>"

definition answered :: "string \<Rightarrow> istate \<Rightarrow> istate" where
  "answered a s = s\<lparr>user_answer := Some a, mode := Some Feedback\<rparr>"

definition judged :: "string option \<Rightarrow> istate \<Rightarrow> istate" where
  "judged r s =
     s\<lparr>last_feedback := Some (strip (or_empty r)),
       history := Some (get_history s @
         [\<lparr>agent = (case current_agent s of None \<Rightarrow> ''Expert'' | Some a \<Rightarrow> a),
           question = or_empty (last_question s),
           h_user_answer = or_empty (user_answer s),
           feedback = strip (or_empty r)\<rparr>]),
       mode := Some Route\<rparr>"

definition counted :: "istate \<Rightarrow> istate" where
  "counted s = s\<lparr>turn_index := Some (get_turn_index s + 1)\<rparr>"

definition settled :: "orchestrator \<Rightarrow> istate \<Rightarrow> istate" where
  "settled self s = (if stopping self s then s\<lparr>mode := Some Done\<rparr> else s)"

text \<open>
  \<open>done_ok\<close> says that a finished state is one the stopping test accepts;
  \<open>session_ok\<close> is what \<open>init_graph\<close> establishes and every operation preserves.
\<close>

definition done_ok :: "orchestrator \<Rightarrow> istate \<Rightarrow> bool" where
  "done_ok self s = (mode s = Some Done \<longrightarrow> stopping self s)"

definition session_ok :: "orchestrator \<Rightarrow> bool" where
  "session_ok self = (app self \<and> done_ok self (state self) \<and> 0 \<le> get_turn_index (state self))"

section \<open>Four calls in a row\<close>

text \<open>
  A fresh session with \<open>max_turns = 2\<close>: \<open>next_question\<close>, an answer,
  \<open>next_question\<close>, an answer, each call on the orchestrator the previous one left.
\<close>

definition step1 :: "llm \<Rightarrow> panel_entry list \<Rightarrow> string \<Rightarrow>
    (error + string \<times> string \<times> bool) \<times> orchestrator \<times> effect list" where
  "step1 l p notes = next_question l (started p notes 2)"

definition step2 :: "llm \<Rightarrow> panel_entry list \<Rightarrow> string \<Rightarrow>
    (error + bool) \<times> orchestrator \<times> effect list" where
  "step2 l p notes = process_user_answer l ''answer A'' (fst (snd (step1 l p notes)))"

definition step3 :: "llm \<Rightarrow> panel_entry list \<Rightarrow> string \<Rightarrow>
    (error + string \<times> string \<times> bool) \<times> orchestrator \<times> effect list" where
  "step3 l p notes = next_question l (fst (snd (step2 l p notes)))"

definition step4 :: "llm \<Rightarrow> panel_entry list \<Rightarrow> string \<Rightarrow>
    (error + bool) \<times> orchestrator \<times> effect list" where
  "step4 l p notes = process_user_answer l ''answer B'' (fst (snd (step3 l p notes)))"

section \<open>Sample inputs\<close>

text \<open>A three-entry panel and a session started on it.\<close>

definition sample_panel :: "panel_entry list" where
  "sample_panel =
     [\<lparr>name = Some ''Domain Expert'', system_prompt = Some ''You are a domain expert interviewer.''\<rparr>,
      \<lparr>name = Some ''Systems Expert'', system_prompt = Some ''You are a systems design interviewer.''\<rparr>,
      \<lparr>name = Some ''Behavioral Expert'', system_prompt = Some ''You are a behavioral interviewer.''\<rparr>]"

definition sample_orchestrator :: "int \<Rightarrow> orchestrator" where
  "sample_orchestrator mt = started sample_panel ''notes'' mt"

text \<open>
  Behaviours of the service: it always answers the same text, it answers without content,
  it raises, it gives feedback but raises when asked for a question, it answers a draft and
  streams three pieces.
\<close>

definition llm_const :: "string \<Rightarrow> llm" where
  "llm_const t = \<lparr>complete = (\<lambda>sp u. Returns (Some t)),
                  complete_json = (\<lambda>sp u. Returns (Some t)),
                  stream = (\<lambda>sp u. ([t], False))\<rparr>"

definition llm_none :: llm where
  "llm_none = \<lparr>complete = (\<lambda>sp u. Returns None),
                complete_json = (\<lambda>sp u. Returns None),
                stream = (\<lambda>sp u. ([], False))\<rparr>"

definition llm_down :: llm where
  "llm_down = \<lparr>complete = (\<lambda>sp u. Raises),
                complete_json = (\<lambda>sp u. Raises),
                stream = (\<lambda>sp u. ([], True))\<rparr>"

definition llm_ask_down :: llm where
  "llm_ask_down = \<lparr>complete = (\<lambda>sp u. if take 10 u = ''Question: '' then Returns (Some ''fine'') else Raises),
                    complete_json = (\<lambda>sp u. Raises),
                    stream = (\<lambda>sp u. ([], True))\<rparr>"

definition llm_pieces :: llm where
  "llm_pieces = \<lparr>complete = (\<lambda>sp u. Returns (Some ''draft'')),
                  complete_json = (\<lambda>sp u. Raises),
                  stream = (\<lambda>sp u. ([''What '', ''is '', ''CAP? ''], False))\<rparr>"

text \<open>Panels whose first, respectively second, entry has an empty name.\<close>

definition blank_first_panel :: "panel_entry list" where
  "blank_first_panel =
     [\<lparr>name = Some [], system_prompt = Some ''You are a domain expert interviewer.''\<rparr>,
      \<lparr>name = Some ''Systems Expert'', system_prompt = Some ''You are a systems design interviewer.''\<rparr>,
      \<lparr>name = Some ''Behavioral Expert'', system_prompt = Some ''You are a behavioral interviewer.''\<rparr>]"

definition blank_second_panel :: "panel_entry list" where
  "blank_second_panel =
     [\<lparr>name = Some ''Domain Expert'', system_prompt = Some ''You are a domain expert interviewer.''\<rparr>,
      \<lparr>name = Some [], system_prompt = Some ''You are a systems design interviewer.''\<rparr>,
      \<lparr>name = Some ''Behavioral Expert'', system_prompt = Some ''You are a behavioral interviewer.''\<rparr>]"

text \<open>A state about to ask and a state about to give feedback.\<close>

definition asking_state :: istate where
  "asking_state = (state (sample_orchestrator 8))\<lparr>current_agent := Some ''Domain Expert'',
      mode := Some Ask\<rparr>"

definition answered_state :: istate where
  "answered_state = (state (sample_orchestrator 8))\<lparr>current_agent := Some ''Domain Expert'',
      last_question := Some ''Q'', user_answer := Some ''A'', mode := Some Feedback\<rparr>"

text \<open>A parser whose result holds a panel of two objects only.\<close>

definition loads_two :: "string \<Rightarrow> json option" where
  "loads_two c = Some (JObj [(''panel'', JArr [JObj [(''name'', JStr ''A'')], JObj [(''name'', JStr ''B'')]])])"

text \<open>
  Sessions reached by operations: one question asked; the same with a second
  \<open>next_question\<close> that raised; a session stopped before its first question; one stopped
  after its first question; and one with \<open>max_turns = 1\<close> that got a second answer.
\<close>

definition asked_session :: orchestrator where
  "asked_session = exec [(llm_const ''Q1'', NextQuestion)] (sample_orchestrator 8)"

definition interrupted_session :: orchestrator where
  "interrupted_session =
     exec [(llm_const ''Q1'', NextQuestion), (llm_down, NextQuestion)] (sample_orchestrator 8)"

definition stopped_session :: orchestrator where
  "stopped_session = exec [(llm_down, Stop), (llm_down, NextQuestion)] (sample_orchestrator 8)"


definition overrun_session :: orchestrator where
  "overrun_session =
     exec [(llm_const ''Q'', NextQuestion), (llm_const ''fine'', ProcessUserAnswer ''a''),
           (llm_const ''fine'', ProcessUserAnswer ''b'')] (sample_orchestrator 1)"

section \<open>Routing\<close>

lemma stopping_mode [simp]: "stopping self (s\<lparr>mode := m\<rparr>) = stopping self s"
  by (simp add: stopping_def get_force_stop_def get_turn_index_def get_max_turns_def)

text \<open>
  Claim C1, as the code has it. The routing step depends on \<open>turn_index\<close>,
  \<open>max_turns\<close>, \<open>force_stop\<close>, the panel and also on \<open>mode\<close>: when the session is
  stopping it sets \<open>mode = done\<close>; otherwise, when the mode is absent or \<open>route\<close> and
  the panel is not empty, it sets \<open>current_agent\<close> to the name of
  \<open>panel[turn_index mod len(panel)]\<close> and \<open>mode = ask\<close>; otherwise (mode \<open>ask\<close>,
  \<open>await_answer\<close>, \<open>feedback\<close> or \<open>done\<close>) it returns the state unchanged.
\<close>

theorem route_transition:
  "(stopping self s \<longrightarrow> route self s = Inr (s\<lparr>mode := Some Done\<rparr>)) \<and>
   (\<not> stopping self s \<and> (mode s = None \<or> mode s = Some Route) \<and> panel self \<noteq> [] \<longrightarrow>
      route self s =
        Inr (s\<lparr>current_agent :=
                 Some (entry_name (nat (get_turn_index s mod int (length (panel self))))
                         (panel self ! nat (get_turn_index s mod int (length (panel self))))),
               mode := Some Ask\<rparr>)) \<and>
   (\<not> stopping self s \<and> mode s \<noteq> None \<and> mode s \<noteq> Some Route \<longrightarrow> route self s = Inr s)"
  by (simp add: route_def Let_def)

lemma sample_state_simps:
  "panel (sample_orchestrator mt) = sample_panel"
  "state (sample_orchestrator mt) =
     \<lparr>prompts = Some sample_panel, resume_notes = Some ''notes'', history = Some [],
      turn_index = Some 0, max_turns = Some mt, current_agent = None,
      mode = Some Route, last_question = None, last_feedback = None, user_answer = None,
      force_stop = Some False\<rparr>"
  "app (sample_orchestrator mt) = True"
  by (simp_all add: sample_orchestrator_def started_def initial_state_def new_orchestrator_def)

text \<open>
  On the three-entry sample panel the turns 0, 1, 2, 3 select the entries 0, 1, 2, 0;
  turn 8 of 8 ends the session; a state waiting for feedback is left alone.
\<close>

theorem route_transition_witness:
  "route (sample_orchestrator 8) ((state (sample_orchestrator 8))\<lparr>turn_index := Some 0\<rparr>) =
     Inr ((state (sample_orchestrator 8))\<lparr>turn_index := Some 0,
            current_agent := Some ''Domain Expert'', mode := Some Ask\<rparr>) \<and>
   route (sample_orchestrator 8) ((state (sample_orchestrator 8))\<lparr>turn_index := Some 1\<rparr>) =
     Inr ((state (sample_orchestrator 8))\<lparr>turn_index := Some 1,
            current_agent := Some ''Systems Expert'', mode := Some Ask\<rparr>) \<and>
   route (sample_orchestrator 8) ((state (sample_orchestrator 8))\<lparr>turn_index := Some 2\<rparr>) =
     Inr ((state (sample_orchestrator 8))\<lparr>turn_index := Some 2,
            current_agent := Some ''Behavioral Expert'', mode := Some Ask\<rparr>) \<and>
   route (sample_orchestrator 8) ((state (sample_orchestrator 8))\<lparr>turn_index := Some 3\<rparr>) =
     Inr ((state (sample_orchestrator 8))\<lparr>turn_index := Some 3,
            current_agent := Some ''Domain Expert'', mode := Some Ask\<rparr>) \<and>
   route (sample_orchestrator 8) ((state (sample_orchestrator 8))\<lparr>turn_index := Some 8\<rparr>) =
     Inr ((state (sample_orchestrator 8))\<lparr>turn_index := Some 8, mode := Some Done\<rparr>) \<and>
   route (sample_orchestrator 8) ((state (sample_orchestrator 8))\<lparr>mode := Some Feedback\<rparr>) =
     Inr ((state (sample_orchestrator 8))\<lparr>mode := Some Feedback\<rparr>)"
  using route_transition [of "sample_orchestrator 8" "(state (sample_orchestrator 8))\<lparr>turn_index := Some 0\<rparr>"]
    route_transition [of "sample_orchestrator 8" "(state (sample_orchestrator 8))\<lparr>turn_index := Some 1\<rparr>"]
    route_transition [of "sample_orchestrator 8" "(state (sample_orchestrator 8))\<lparr>turn_index := Some 2\<rparr>"]
    route_transition [of "sample_orchestrator 8" "(state (sample_orchestrator 8))\<lparr>turn_index := Some 3\<rparr>"]
    route_transition [of "sample_orchestrator 8" "(state (sample_orchestrator 8))\<lparr>turn_index := Some 8\<rparr>"]
    route_transition [of "sample_orchestrator 8" "(state (sample_orchestrator 8))\<lparr>mode := Some Feedback\<rparr>"]
  by (simp add: sample_state_simps sample_panel_def stopping_def get_force_stop_def
        get_turn_index_def get_max_turns_def entry_name_def)

text \<open>
  C1 as stated fails: in a state that is not stopping and whose mode is \<open>await_answer\<close>
  the routing step selects no agent and does not set \<open>mode = ask\<close>.
\<close>

theorem route_await_answer_counterexample:
  "\<not> stopping (sample_orchestrator 8) ((state (sample_orchestrator 8))\<lparr>mode := Some AwaitAnswer\<rparr>) \<and>
   route (sample_orchestrator 8) ((state (sample_orchestrator 8))\<lparr>mode := Some AwaitAnswer\<rparr>) =
     Inr ((state (sample_orchestrator 8))\<lparr>mode := Some AwaitAnswer\<rparr>) \<and>
   current_agent ((state (sample_orchestrator 8))\<lparr>mode := Some AwaitAnswer\<rparr>) = None"
  by (simp add: sample_state_simps route_def stopping_def get_force_stop_def
        get_turn_index_def get_max_turns_def)



section \<open>Summary of an empty interview\<close>

lemma strip_Nil [simp]: "strip [] = []"
  by (simp add: strip_def)

text \<open>
  Claim C9. With an empty (or absent) history, \<open>summary\<close> returns the fixed sentence
  \<open>No interview conducted.\<close> and its trace is empty: the service is not called.
\<close>

theorem summary_empty_history:
  "get_history (state self) = [] \<Longrightarrow> summary l self = (Inr ''No interview conducted.'', [])"
  by (simp add: summary_def)

text \<open>A fresh session, with a service that would raise if it were called.\<close>

theorem summary_empty_history_witness:
  "get_history (state (sample_orchestrator 8)) = [] \<and>
   summary llm_down (sample_orchestrator 8) = (Inr ''No interview conducted.'', [])"
proof -
  have h: "get_history (state (sample_orchestrator 8)) = []"
    by (simp add: sample_state_simps get_history_def)
  from summary_empty_history [OF h, of llm_down] h show ?thesis by simp
qed


section \<open>Panel proposal always yields three entries\<close>

lemma normalize_entries_length: "normalize_entries i ps = Some out \<Longrightarrow> length out = length ps"
  by (induction ps arbitrary: i out) (auto split: json.splits option.splits)

lemma normalize_entries_objs: "normalize_entries i ps = Some out \<Longrightarrow> list_all is_obj ps"
  by (induction ps arbitrary: i out) (auto simp: is_obj_def split: json.splits option.splits)

lemma parse_panel_length: "parse_panel loads content = Some out \<Longrightarrow> length out = 3"
  by (auto simp: parse_panel_def split: option.splits json.splits if_splits dest: normalize_entries_length)

lemma parse_panel_shape:
  "parse_panel loads content = Some out \<Longrightarrow>
     \<exists>c data. content = Some c \<and> loads c = Some data \<and> three_objects data"
  by (auto simp: parse_panel_def three_objects_def
      split: option.splits json.splits if_splits dest: normalize_entries_objs)

text \<open>
  Claim C8. Whatever content the service returns and whatever the parser makes of it,
  \<open>propose_panel_from_jd\<close> returns exactly three entries; unless the content parses to
  an object whose \<open>panel\<close> is a list of exactly three objects, the result is the fixed
  fallback panel.
\<close>

theorem propose_panel_three_entries:
  assumes "complete_json l JD_PANEL_PROMPT (jd_user_prompt jd_text) = Returns content"
  shows "\<exists>p. propose_panel_from_jd loads l jd_text =
               (Inr p, [InvokeJson JD_PANEL_PROMPT (jd_user_prompt jd_text)]) \<and>
             length p = 3 \<and>
             ((\<exists>c data. content = Some c \<and> loads c = Some data \<and> three_objects data) \<or>
              p = fallback_panel)"
proof (cases "parse_panel loads content")
  case None
  with assms show ?thesis
    by (simp add: propose_panel_from_jd_def fallback_panel_def)
next
  case (Some out)
  with assms parse_panel_length [OF Some] parse_panel_shape [OF Some] show ?thesis
    by (simp add: propose_panel_from_jd_def)
qed


text \<open>Content that does not parse, and content that parses to a panel of two.\<close>

theorem propose_panel_three_entries_witness:
  "propose_panel_from_jd (\<lambda>c. None) (llm_const ''not json'') ''Backend engineer'' =
     (Inr fallback_panel, [InvokeJson JD_PANEL_PROMPT (jd_user_prompt ''Backend engineer'')]) \<and>
   propose_panel_from_jd loads_two (llm_const ''two'') ''Backend engineer'' =
     (Inr fallback_panel, [InvokeJson JD_PANEL_PROMPT (jd_user_prompt ''Backend engineer'')]) \<and>
   length fallback_panel = 3"
proof -
  have a: "complete_json (llm_const ''not json'') JD_PANEL_PROMPT (jd_user_prompt ''Backend engineer'')
             = Returns (Some ''not json'')"
    by (simp add: llm_const_def)
  have b: "complete_json (llm_const ''two'') JD_PANEL_PROMPT (jd_user_prompt ''Backend engineer'')
             = Returns (Some ''two'')"
    by (simp add: llm_const_def)
  from propose_panel_three_entries [OF a, of "\<lambda>c. None"]
       propose_panel_three_entries [OF b, of loads_two]
  show ?thesis
    by (auto simp: three_objects_def loads_two_def)
qed


section \<open>The graph walk\<close>

text \<open>
  A walk that returns leaves \<open>turn_index\<close>, \<open>max_turns\<close> and \<open>force_stop\<close> as they
  were, and a state whose mode is \<open>done\<close> only when the stopping test holds stays so.
  Both follow from one induction on the step budget, stated for an arbitrary invariant of
  the nodes.
\<close>

lemma stopping_state [simp]: "stopping (self\<lparr>state := x\<rparr>) s = stopping self s"
  by (simp add: stopping_def get_max_turns_def split: option.splits)

lemma leak_fields [simp]:
  "mode (leak s sr) = mode s" "turn_index (leak s sr) = turn_index s"
  "max_turns (leak s sr) = max_turns s" "force_stop (leak s sr) = force_stop s"
  "current_agent (leak s sr) = current_agent s" "last_question (leak s sr) = last_question s"
  "last_feedback (leak s sr) = last_feedback s" "user_answer (leak s sr) = user_answer s"
  "resume_notes (leak s sr) = resume_notes s" "prompts (leak s sr) = prompts s"
  by (simp_all add: leak_def split: option.splits)

lemma leak_same [simp]: "history sr = history s \<Longrightarrow> leak s sr = s"
  by (cases "history s") (simp_all add: leak_def)

lemma history_turn_states [simp]:
  "history (routed self s) = history s" "history (asked r s) = history s"
  "history (answered a s) = history s" "history (counted s) = history s"
  "history (settled self s) = history s"
  by (simp_all add: routed_def asked_def answered_def counted_def settled_def)

lemma stopping_leak [simp]: "stopping self (leak s sr) = stopping self s"
  by (simp add: stopping_def get_force_stop_def get_turn_index_def get_max_turns_def)

lemma done_ok_leak [simp]: "done_ok self (leak s sr) = done_ok self s"
  by (simp add: done_ok_def)

lemma get_turn_index_leak [simp]: "get_turn_index (leak s sr) = get_turn_index s"
  by (simp add: get_turn_index_def)

lemma stopping_cong:
  "turn_index s' = turn_index s \<Longrightarrow> max_turns s' = max_turns s \<Longrightarrow> force_stop s' = force_stop s
     \<Longrightarrow> stopping self s' = stopping self s"
  by (simp add: stopping_def get_force_stop_def get_turn_index_def get_max_turns_def)

lemma stopping_incr:
  "stopping self s \<Longrightarrow> stopping self (s\<lparr>turn_index := Some (get_turn_index s + 1)\<rparr>)"
  by (auto simp: stopping_def get_force_stop_def get_turn_index_def get_max_turns_def)

lemma invoke_stopping:
  "stopping self s \<Longrightarrow> invoke self l s = (Inr (s\<lparr>mode := Some Done\<rparr>), [])"
  by (simp add: invoke_def recursion_limit_def eval_nat_numeral route_def from_route_cond_def done_node_def)

lemma node_keeps:
  "node sp l s = (r, s', t) \<Longrightarrow>
     turn_index s' = turn_index s \<and> max_turns s' = max_turns s \<and> force_stop s' = force_stop s
     \<and> current_agent s' = current_agent s"
  by (auto simp: node_def Let_def split: if_splits llm_result.splits)

lemma route_keeps:
  "route self s = Inr s' \<Longrightarrow>
     turn_index s' = turn_index s \<and> max_turns s' = max_turns s \<and> force_stop s' = force_stop s"
  by (auto simp: route_def Let_def split: if_splits)

lemma run_invariant:
  assumes "run n self l nd s = (Inr s', t)"
    and "I nd s"
    and r: "\<And>s s1. I N_route s \<Longrightarrow> route self s = Inr s1 \<Longrightarrow> I (from_route_cond self s1) s1"
    and m: "\<And>i s s1 t. I (N_sme i) s \<Longrightarrow> node (sme_prompt (panel self ! i)) l s = (None, s1, t)
              \<Longrightarrow> I (from_sme_cond s1) s1"
    and d: "\<And>s. I N_done s \<Longrightarrow> I N_end (done_node s)"
  shows "I N_end s'"
  using assms(1,2)
proof (induction n arbitrary: nd s t)
  case 0
  then show ?case by (cases nd) auto
next
  case (Suc n)
  show ?case
  proof (cases nd)
    case N_route
    with Suc.prems obtain s1 where s1: "route self s = Inr s1"
      and rn: "run n self l (from_route_cond self s1) s1 = (Inr s', t)"
      by (auto split: sum.splits)
    from Suc.prems(2) N_route have "I N_route s" by simp
    then have "I (from_route_cond self s1) s1" using s1 by (rule r)
    from Suc.IH [OF rn this] show ?thesis .
  next
    case (N_sme i)
    with Suc.prems obtain s1 t1 t2 where nd1: "node (sme_prompt (panel self ! i)) l s = (None, s1, t1)"
      and rn: "run n self l (from_sme_cond s1) s1 = (Inr s', t2)"
      by (auto split: if_splits prod.splits option.splits)
    from Suc.prems(2) N_sme have "I (N_sme i) s" by simp
    then have "I (from_sme_cond s1) s1" using nd1 by (rule m)
    from Suc.IH [OF rn this] show ?thesis .
  next
    case N_done
    with Suc.prems have rn: "run n self l N_end (done_node s) = (Inr s', t)" by simp
    from Suc.prems(2) N_done have "I N_done s" by simp
    then have "I N_end (done_node s)" by (rule d)
    from Suc.IH [OF rn this] show ?thesis .
  next
    case N_end
    with Suc.prems show ?thesis by simp
  qed
qed

lemma run_keeps:
  assumes "run n self l nd s = (Inr s', t)"
  shows "turn_index s' = turn_index s \<and> max_turns s' = max_turns s \<and> force_stop s' = force_stop s"
proof -
  let ?I = "\<lambda>(nd::node_id) (x::istate). turn_index x = turn_index s \<and> max_turns x = max_turns s \<and> force_stop x = force_stop s"
  have "?I N_end s'"
  proof (rule run_invariant [where I = ?I, OF assms])
    show "?I nd s" by simp
  next
    fix x s1 assume "?I N_route x" "route self x = Inr s1"
    then show "?I (from_route_cond self s1) s1" using route_keeps by fastforce
  next
    fix i x s1 t assume "?I (N_sme i) x" "node (sme_prompt (panel self ! i)) l x = (None, s1, t)"
    then show "?I (from_sme_cond s1) s1" using node_keeps by fastforce
  next
    fix x assume "?I N_done x"
    then show "?I N_end (done_node x)" by (simp add: done_node_def)
  qed
  then show ?thesis by simp
qed

lemma invoke_keeps:
  "invoke self l s = (Inr s', t) \<Longrightarrow>
     turn_index s' = turn_index s \<and> max_turns s' = max_turns s \<and> force_stop s' = force_stop s"
  unfolding invoke_def by (rule run_keeps)

lemma invoke_stopping_eq:
  "invoke self l s = (Inr s', t) \<Longrightarrow> stopping self s' = stopping self s"
  by (rule stopping_cong) (auto dest: invoke_keeps)

lemma run_done_ok:
  assumes "run n self l N_route s = (Inr s', t)" and "done_ok self s"
  shows "done_ok self s'"
proof -
  let ?I = "\<lambda>(nd::node_id) (x::istate). (mode x = Some Done \<or> nd = N_done) \<longrightarrow> stopping self x"
  have "?I N_end s'"
  proof (rule run_invariant [where I = ?I, OF assms(1)])
    show "?I N_route s" using assms(2) by (simp add: done_ok_def)
  next
    fix x s1 assume "?I N_route x" "route self x = Inr s1"
    then show "?I (from_route_cond self s1) s1"
      by (auto simp: route_def Let_def from_route_cond_def split: if_splits option.splits)
  next
    fix i x s1 t assume a: "?I (N_sme i) x" "node (sme_prompt (panel self ! i)) l x = (None, s1, t)"
    from node_keeps [OF a(2)] have "stopping self s1 = stopping self x"
      by (intro stopping_cong) auto
    moreover from a(2) have "mode s1 = Some Done \<Longrightarrow> mode x = Some Done"
      by (auto simp: node_def Let_def split: if_splits llm_result.splits)
    ultimately show "?I (from_sme_cond s1) s1" using a(1)
      by (auto simp: from_sme_cond_def)
  next
    fix x assume "?I N_done x"
    then show "?I N_end (done_node x)" by (simp add: done_node_def)
  qed
  then show ?thesis by (simp add: done_ok_def)
qed

lemma invoke_done_ok:
  "invoke self l s = (Inr s', t) \<Longrightarrow> done_ok self s \<Longrightarrow> done_ok self s'"
  unfolding invoke_def by (rule run_done_ok)

section \<open>Sessions started by init_graph\<close>

text \<open>
  Every operation, whether it returns or raises, leaves an orchestrator that is initialised,
  whose turn counter is not negative and whose mode is \<open>done\<close> only when the stopping
  test holds.
\<close>

lemma done_ok_state [simp]: "done_ok (self\<lparr>state := x\<rparr>) s = done_ok self s"
  by (simp add: done_ok_def)

lemma route_state [simp]: "route (self\<lparr>state := x\<rparr>) s = route self s"
  by (simp add: route_def)

lemma from_route_cond_state [simp]:
  "from_route_cond (self\<lparr>state := x\<rparr>) s = from_route_cond self s"
  by (simp add: from_route_cond_def split: option.splits)

lemma run_state [simp]: "run n (self\<lparr>state := x\<rparr>) l nd s = run n self l nd s"
proof (induction n arbitrary: nd s)
  case 0
  show ?case by (cases nd) simp_all
next
  case (Suc n)
  show ?case
    by (cases nd) (simp_all add: Suc split: sum.splits prod.splits option.splits)
qed

lemma invoke_state [simp]: "invoke (self\<lparr>state := x\<rparr>) l s = invoke self l s"
  by (simp add: invoke_def)

lemma get_turn_index_keeps:
  "turn_index s' = turn_index s \<Longrightarrow> get_turn_index s' = get_turn_index s"
  by (simp add: get_turn_index_def)

lemma init_graph_started:
  "3 \<le> length p \<Longrightarrow> init_graph p notes (new_orchestrator mt) = (Inr (), started p notes mt)"
  by (simp add: init_graph_def started_def new_orchestrator_def)

lemma init_graph_short:
  "length p < 3 \<Longrightarrow>
     init_graph p notes self = (Inl ValueError, self\<lparr>panel := p, o_resume_notes := notes\<rparr>)"
  by (simp add: init_graph_def)

lemma session_ok_init: "session_ok (started p notes mt)"
  by (simp add: session_ok_def started_def initial_state_def new_orchestrator_def done_ok_def get_turn_index_def)

lemma next_question_ok:
  assumes "session_ok self"
  shows "session_ok (fst (snd (next_question l self)))"
proof -
  let ?s0 = "(state self)\<lparr>mode := Some Route\<rparr>"
  have s0: "done_ok self ?s0" "get_turn_index ?s0 = get_turn_index (state self)"
    by (simp_all add: done_ok_def get_turn_index_def)
  show ?thesis
  proof (cases "invoke self l ?s0")
    case (Pair r1 t1)
    show ?thesis
    proof (cases r1)
      case (Inl e)
      with Pair assms s0 show ?thesis
        by (simp add: next_question_def session_ok_def split: prod.splits)
    next
      case (Inr s1)
      with Pair have i1: "invoke self l ?s0 = (Inr s1, t1)" by simp
      from invoke_done_ok [OF i1 s0(1)] have d1: "done_ok self s1" .
      from invoke_keeps [OF i1] s0(2) have t1: "get_turn_index s1 = get_turn_index (state self)"
        by (simp add: get_turn_index_def)
      show ?thesis
      proof (cases "invoke self l s1")
        case (Pair r2 t2)
        show ?thesis
        proof (cases r2)
          case (Inl e)
          with Pair i1 assms d1 t1 show ?thesis
            by (simp add: next_question_def session_ok_def split: prod.splits)
        next
          case (Inr s2)
          with Pair have i2: "invoke self l s1 = (Inr s2, t2)" by simp
          from invoke_done_ok [OF i2 d1] have d2: "done_ok self s2" .
          from invoke_keeps [OF i2] t1 have "get_turn_index s2 = get_turn_index (state self)"
            by (simp add: get_turn_index_def)
          with i1 i2 assms d2 show ?thesis
            by (simp add: next_question_def session_ok_def)
        qed
      qed
    qed
  qed
qed

lemma done_ok_incr:
  "done_ok self s \<Longrightarrow> done_ok self (s\<lparr>turn_index := Some (get_turn_index s + 1)\<rparr>)"
  using stopping_incr [of self s] by (auto simp: done_ok_def)

lemma process_user_answer_ok:
  assumes "session_ok self"
  shows "session_ok (fst (snd (process_user_answer l a self)))"
proof -
  let ?s0 = "(state self)\<lparr>user_answer := Some a, mode := Some Feedback\<rparr>"
  have s0: "done_ok self ?s0" "get_turn_index ?s0 = get_turn_index (state self)"
    by (simp_all add: done_ok_def get_turn_index_def)
  show ?thesis
  proof (cases "invoke self l ?s0")
    case (Pair r1 t1)
    show ?thesis
    proof (cases r1)
      case (Inl e)
      with Pair assms s0 show ?thesis
        by (simp add: process_user_answer_def session_ok_def split: prod.splits)
    next
      case (Inr s1)
      with Pair have i1: "invoke self l ?s0 = (Inr s1, t1)" by simp
      let ?s2 = "s1\<lparr>turn_index := Some (get_turn_index s1 + 1)\<rparr>"
      from invoke_done_ok [OF i1 s0(1)] have d2: "done_ok self ?s2" by (rule done_ok_incr)
      from invoke_keeps [OF i1] s0(2) have "get_turn_index s1 = get_turn_index (state self)"
        by (simp add: get_turn_index_def)
      with assms have t2: "0 \<le> get_turn_index ?s2"
        by (simp add: get_turn_index_def session_ok_def)
      show ?thesis
      proof (cases "invoke self l ?s2")
        case (Pair r2 t2')
        show ?thesis
        proof (cases r2)
          case (Inl e)
          with Pair i1 assms d2 t2 show ?thesis
            by (simp add: process_user_answer_def session_ok_def Let_def split: prod.splits)
        next
          case (Inr s3)
          with Pair have i2: "invoke self l ?s2 = (Inr s3, t2')" by simp
          from invoke_done_ok [OF i2 d2] have d3: "done_ok self s3" .
          from invoke_keeps [OF i2] have "get_turn_index s3 = get_turn_index ?s2"
            by (simp add: get_turn_index_def)
          with i1 i2 assms d3 t2 show ?thesis
            by (simp add: process_user_answer_def session_ok_def Let_def)
        qed
      qed
    qed
  qed
qed

lemma stream_next_question_ok:
  assumes "session_ok self"
  shows "session_ok (fst (snd (stream_next_question l self)))"
proof -
  let ?s0 = "(state self)\<lparr>mode := Some Route\<rparr>"
  have s0: "done_ok self ?s0" "get_turn_index ?s0 = get_turn_index (state self)"
    by (simp_all add: done_ok_def get_turn_index_def)
  show ?thesis
  proof (cases "invoke self l ?s0")
    case (Pair r1 t1)
    show ?thesis
    proof (cases r1)
      case (Inl e)
      with Pair assms s0 show ?thesis
        by (simp add: stream_next_question_def session_ok_def split: prod.splits)
    next
      case (Inr s1)
      with Pair have i1: "invoke self l ?s0 = (Inr s1, t1)" by simp
      from invoke_done_ok [OF i1 s0(1)] have d1: "done_ok self s1" .
      from invoke_keeps [OF i1] s0(2) have t1: "get_turn_index s1 = get_turn_index (state self)"
        by (simp add: get_turn_index_def)
      have d2: "done_ok self (s1\<lparr>last_question := q, mode := Some AwaitAnswer\<rparr>)" for q
        by (simp add: done_ok_def)
      have t2: "get_turn_index (s1\<lparr>last_question := q, mode := Some AwaitAnswer\<rparr>) = get_turn_index s1" for q
        by (simp add: get_turn_index_def)
      from i1 assms d1 t1 d2 t2 show ?thesis
        by (simp add: stream_next_question_def session_ok_def Let_def split: prod.splits)
    qed
  qed
qed

lemma stop_ok: "session_ok self \<Longrightarrow> session_ok (stop self)"
  by (simp add: session_ok_def stop_def done_ok_def stopping_def get_force_stop_def get_turn_index_def)

lemma apply_op_ok: "session_ok self \<Longrightarrow> session_ok (apply_op l opn self)"
  by (cases opn)
     (simp_all add: apply_op_def next_question_ok process_user_answer_ok stream_next_question_ok stop_ok)

lemma exec_snoc: "exec (steps @ [(l, opn)]) self = apply_op l opn (exec steps self)"
  by (simp add: exec_def)

lemma exec_append: "exec (xs @ ys) self = exec ys (exec xs self)"
  by (simp add: exec_def)

lemma exec_ok: "session_ok self \<Longrightarrow> session_ok (exec steps self)"
  by (induction steps rule: rev_induct) (auto simp: exec_snoc apply_op_ok exec_def)

section \<open>A finished session stays finished\<close>

lemma done_step:
  assumes ok: "session_ok self" and dn: "mode (state self) = Some Done"
  shows "mode (state (apply_op l opn self)) = Some Done \<and>
         current_agent (state (apply_op l opn self)) = current_agent (state self) \<and>
         history (state (apply_op l opn self)) = history (state self)"
proof -
  from ok dn have st: "stopping self (state self)" and ap: "app self"
    by (simp_all add: session_ok_def done_ok_def)
  have a: "stopping self ((state self)\<lparr>mode := m\<rparr>)" for m using st by simp
  have b: "stopping self ((state self)\<lparr>user_answer := Some x, mode := m\<rparr>)" for x m
    using st by (simp add: stopping_def get_force_stop_def get_turn_index_def get_max_turns_def)
  have c: "stopping self ((state self)\<lparr>user_answer := Some x, mode := m,
             turn_index := Some (get_turn_index ((state self)\<lparr>user_answer := Some x, mode := m'\<rparr>) + 1)\<rparr>)" for x m m'
    using st by (auto simp: stopping_def get_force_stop_def get_turn_index_def get_max_turns_def)
  show ?thesis
  proof (cases opn)
    case NextQuestion
    then show ?thesis using ap dn
      by (simp add: apply_op_def next_question_def invoke_stopping [OF a])
  next
    case (ProcessUserAnswer x)
    then show ?thesis using ap dn
      by (simp add: apply_op_def process_user_answer_def Let_def invoke_stopping [OF b]
            invoke_stopping [OF c])
  next
    case StreamNextQuestion
    then show ?thesis using ap dn
      by (simp add: apply_op_def stream_next_question_def invoke_stopping [OF a])
  next
    case Stop
    then show ?thesis using dn by (simp add: apply_op_def stop_def)
  qed
qed

text \<open>
  Claim C4. In a session started by \<open>init_graph\<close> and driven by any sequence of
  operations, once \<open>mode\<close> is \<open>done\<close> no further sequence of \<open>next_question\<close>,
  \<open>process_user_answer\<close>, \<open>stream_next_question\<close> and \<open>stop\<close> changes \<open>mode\<close> or
  \<open>current_agent\<close>, and the history stays as it is.
\<close>

theorem done_is_terminal:
  assumes "self = exec steps (started p notes mt)"
    and "mode (state self) = Some Done"
  shows "mode (state (exec later self)) = Some Done \<and>
         current_agent (state (exec later self)) = current_agent (state self) \<and>
         history (state (exec later self)) = history (state self)"
proof (induction later rule: rev_induct)
  case Nil
  from assms(2) show ?case by (simp add: exec_def)
next
  case (snoc x xs)
  obtain l opn where x: "x = (l, opn)" by (cases x)
  from assms(1) have "session_ok (exec xs self)"
    by (simp add: exec_ok session_ok_init)
  from done_step [OF this, of l opn] snoc show ?case
    by (simp add: x exec_snoc)
qed

section \<open>The walk in each mode\<close>

text \<open>
  What the walk does on a three-entry panel when the session is not stopping: from mode
  \<open>route\<close> one call to the service and a stored question; from \<open>await_answer\<close>
  nothing; from \<open>feedback\<close> a call for the feedback, a new turn in the history, and then
  the same steps as from \<open>route\<close>, at the same \<open>turn_index\<close>.
\<close>

lemma first_index_lt: "first_index P xs = Some i \<Longrightarrow> i < length xs"
  by (induction xs arbitrary: i) (auto split: if_splits)

lemma agent_index_lt: "ps \<noteq> [] \<Longrightarrow> agent_index ps cur < length ps"
  by (auto simp: agent_index_def split: option.splits dest: first_index_lt)

lemma run_route:
  assumes "\<not> stopping self s" and "mode s = Some Route \<or> mode s = None"
    and "length (panel self) = 3" and "speaker self s \<noteq> []"
  shows "run (Suc (Suc n)) self l N_route s =
     (case complete l (speaker_prompt self (speaker self s)) (ask_prompt (routed self s)) of
        Raises \<Rightarrow> (Inl (GenerationError, routed self s),
                    [Invoke (speaker_prompt self (speaker self s)) (ask_prompt (routed self s))])
      | Returns r \<Rightarrow> (Inr (asked r (routed self s)),
                      [Invoke (speaker_prompt self (speaker self s)) (ask_prompt (routed self s))]))"
proof -
  from assms(3) have ne: "panel self \<noteq> []" by auto
  from agent_index_lt [OF ne, of "speaker self s"] assms(3)
  have j: "agent_index (panel self) (speaker self s) < 3" by simp
  have r: "route self s = Inr (routed self s)"
    using assms(1,2) ne by (auto simp: route_def routed_def Let_def)
  have f: "from_route_cond self (routed self s) = N_sme (agent_index (panel self) (speaker self s))"
    using assms(4) by (simp add: from_route_cond_def routed_def speaker_def)
  have n: "node sp l (routed self s) =
      (case complete l sp (ask_prompt (routed self s)) of
        Raises \<Rightarrow> (Some GenerationError, routed self s, [Invoke sp (ask_prompt (routed self s))])
      | Returns r \<Rightarrow> (None, asked r (routed self s), [Invoke sp (ask_prompt (routed self s))]))" for sp
    by (simp add: node_def routed_def asked_def Let_def split: llm_result.splits)
  show ?thesis
    using j assms(3)
    by (simp add: r f n speaker_prompt_def from_sme_cond_def asked_def split: llm_result.splits)
qed

lemma run_await:
  assumes "\<not> stopping self s" and "mode s = Some AwaitAnswer" and "length (panel self) = 3"
  shows "run (Suc (Suc n)) self l N_route s = (Inr s, [])"
proof -
  from assms(3) have ne: "panel self \<noteq> []" by auto
  have j: "agent_index (panel self) cur < 3" for cur
    using agent_index_lt [OF ne, of cur] assms(3) by simp
  have r: "route self s = Inr s"
    using assms(1,2) by (simp add: route_def)
  have n: "node sp l s = (None, s, [])" for sp
    using assms(2) by (simp add: node_def)
  show ?thesis
    using j assms(2,3)
    by (simp add: r n from_route_cond_def from_sme_cond_def split: option.splits)
qed

lemma run_feedback:
  assumes "\<not> stopping self s" and "mode s = Some Feedback" and "length (panel self) = 3"
    and "current_agent s = Some cur" and "cur \<noteq> []" and "speaker self s \<noteq> []"
  shows "run (Suc (Suc (Suc (Suc n)))) self l N_route s =
     (case complete l (speaker_prompt self cur) (feedback_prompt s) of
        Raises \<Rightarrow> (Inl (GenerationError, s), [Invoke (speaker_prompt self cur) (feedback_prompt s)])
      | Returns r \<Rightarrow>
          (case complete l (speaker_prompt self (speaker self s))
                  (ask_prompt (routed self (judged r s))) of
             Raises \<Rightarrow> (Inl (GenerationError, routed self (judged r s)),
                 [Invoke (speaker_prompt self cur) (feedback_prompt s),
                  Invoke (speaker_prompt self (speaker self s))
                    (ask_prompt (routed self (judged r s)))])
           | Returns r' \<Rightarrow> (Inr (asked r' (routed self (judged r s))),
                 [Invoke (speaker_prompt self cur) (feedback_prompt s),
                  Invoke (speaker_prompt self (speaker self s))
                    (ask_prompt (routed self (judged r s)))])))"
proof -
  from assms(3) have ne: "panel self \<noteq> []" by auto
  have j: "agent_index (panel self) c < 3" for c
    using agent_index_lt [OF ne, of c] assms(3) by simp
  have r: "route self s = Inr s"
    using assms(1,2) by (simp add: route_def)
  have f: "from_route_cond self s = N_sme (agent_index (panel self) cur)"
    using assms(2,4,5) by (simp add: from_route_cond_def)
  have n: "node sp l s =
      (case complete l sp (feedback_prompt s) of
        Raises \<Rightarrow> (Some GenerationError, s, [Invoke sp (feedback_prompt s)])
      | Returns r \<Rightarrow> (None, judged r s, [Invoke sp (feedback_prompt s)]))" for sp
    using assms(2) by (simp add: node_def judged_def Let_def split: llm_result.splits)
  have st: "\<not> stopping self (judged r s)" for r
    using assms(1) by (simp add: judged_def stopping_def get_force_stop_def get_turn_index_def get_max_turns_def)
  have md: "mode (judged r s) = Some Route \<or> mode (judged r s) = None" for r
    by (simp add: judged_def)
  have sp: "speaker self (judged r s) = speaker self s" for r
    by (simp add: judged_def speaker_def get_turn_index_def)
  have sp': "speaker self (judged r s) \<noteq> []" for r
    using assms(6) by (simp add: sp)
  have fs: "from_sme_cond (judged r s) = N_route" for r
    by (simp add: from_sme_cond_def judged_def)
  have step: "run (Suc (Suc (Suc (Suc n)))) self l N_route s =
      (case node (speaker_prompt self cur) l s of
         (Some e, s', t) \<Rightarrow> (Inl (e, s'), t)
       | (None, s', t) \<Rightarrow>
           (case run (Suc (Suc n)) self l (from_sme_cond s') s' of (r, t') \<Rightarrow> (r, t @ t')))"
    using j assms(3) by (simp add: r f speaker_prompt_def)
  show ?thesis
    by (simp add: step n fs run_route [OF st md assms(3) sp'] sp
          del: run.simps split: llm_result.splits)
qed

lemma invoke_run2: "invoke self l s = run (Suc (Suc 23)) self l N_route s"
proof -
  have "(25::nat) = Suc (Suc 23)" by simp
  then show ?thesis by (simp only: invoke_def recursion_limit_def)
qed

lemma invoke_run4: "invoke self l s = run (Suc (Suc (Suc (Suc 21)))) self l N_route s"
proof -
  have "(25::nat) = Suc (Suc (Suc (Suc 21)))" by simp
  then show ?thesis by (simp only: invoke_def recursion_limit_def)
qed

lemmas invoke_route = run_route [where n = 23, folded invoke_run2]
lemmas invoke_await = run_await [where n = 23, folded invoke_run2]
lemmas invoke_feedback = run_feedback [where n = 21, folded invoke_run4]

lemma compose_context_cong:
  "resume_notes s' = resume_notes s \<Longrightarrow> history s' = history s \<Longrightarrow>
     compose_context s' = compose_context s"
  by (simp add: compose_context_def get_history_def)

lemma ask_prompt_routed [simp]: "ask_prompt (routed self s) = ask_prompt s"
  by (simp add: ask_prompt_def routed_def compose_context_def get_history_def)

lemma ask_prompt_mode [simp]: "ask_prompt (s\<lparr>mode := m\<rparr>) = ask_prompt s"
  by (simp add: ask_prompt_def compose_context_def get_history_def)

lemma speaker_mode [simp]: "speaker self (s\<lparr>mode := m\<rparr>) = speaker self s"
  by (simp add: speaker_def get_turn_index_def)

lemma speaker_state [simp]: "speaker (self\<lparr>state := x\<rparr>) s = speaker self s"
  by (simp add: speaker_def)

lemma stopping_asked_routed [simp]: "stopping self (asked r (routed self s)) = stopping self s"
  by (rule stopping_cong) (simp_all add: asked_def routed_def)

lemma next_question_asks:
  assumes "app self" and "\<not> stopping self (state self)" and "length (panel self) = 3"
    and "speaker self (state self) \<noteq> []"
    and "complete l (speaker_prompt self (speaker self (state self))) (ask_prompt (state self)) = Returns r"
  shows "next_question l self =
     (Inr (strip (or_empty r), speaker self (state self), False),
      self\<lparr>state := (state self)\<lparr>current_agent := Some (speaker self (state self)),
                 last_question := Some (strip (or_empty r)), mode := Some AwaitAnswer\<rparr>\<rparr>,
      [Invoke (speaker_prompt self (speaker self (state self))) (ask_prompt (state self))])"
proof -
  let ?s0 = "(state self)\<lparr>mode := Some Route\<rparr>"
  have a: "\<not> stopping self ?s0" "mode ?s0 = Some Route \<or> mode ?s0 = None" "speaker self ?s0 \<noteq> []"
    using assms(2,4) by simp_all
  have i1: "invoke self l ?s0 = (Inr (asked r (routed self ?s0)),
      [Invoke (speaker_prompt self (speaker self (state self))) (ask_prompt (state self))])"
    using assms(5) by (simp add: invoke_route [OF a(1,2) assms(3) a(3)])
  have b1: "\<not> stopping self (asked r (routed self ?s0))"
    using assms(2) by simp
  have b2: "mode (asked r (routed self ?s0)) = Some AwaitAnswer"
    by (simp add: asked_def)
  have i2: "invoke self l (asked r (routed self ?s0)) = (Inr (asked r (routed self ?s0)), [])"
    by (rule invoke_await [OF b1 b2 assms(3)])
  have nq: "next_question l self =
     (Inr (or_empty (last_question (asked r (routed self ?s0))),
           (case current_agent (asked r (routed self ?s0)) of None \<Rightarrow> ''Expert'' | Some a \<Rightarrow> a),
           mode (asked r (routed self ?s0)) = Some Done),
      self\<lparr>state := asked r (routed self ?s0)\<rparr>,
      [Invoke (speaker_prompt self (speaker self (state self))) (ask_prompt (state self))])"
    using assms(1) by (simp add: next_question_def Let_def i1 i2)
  have st: "asked r (routed self ?s0) =
      (state self)\<lparr>current_agent := Some (speaker self (state self)),
                 last_question := Some (strip (or_empty r)), mode := Some AwaitAnswer\<rparr>"
    by (simp add: asked_def routed_def speaker_def get_turn_index_def)
  show ?thesis
    unfolding nq st by (simp add: or_empty_def)
qed

section \<open>A stopped sample session\<close>

lemma stopped_session_state:
  "state stopped_session = (state (sample_orchestrator 8))\<lparr>force_stop := Some True, mode := Some Done\<rparr>"
proof -
  have st: "stopping (stop (sample_orchestrator 8)) ((state (stop (sample_orchestrator 8)))\<lparr>mode := m\<rparr>)" for m
    by (simp add: stop_def stopping_def get_force_stop_def)
  show ?thesis
    by (simp add: stopped_session_def exec_def apply_op_def next_question_def
          invoke_stopping [OF st])
       (simp add: stop_def sample_state_simps)
qed

text \<open>
  A session stopped before its first question: four more operations leave it finished,
  with no agent and an empty history.
\<close>

theorem done_is_terminal_witness:
  "mode (state stopped_session) = Some Done \<and>
   mode (state (exec [(llm_const ''Q'', NextQuestion), (llm_const ''Q'', ProcessUserAnswer ''late''),
                      (llm_const ''Q'', StreamNextQuestion), (llm_const ''Q'', Stop)]
                  stopped_session)) = Some Done \<and>
   current_agent (state (exec [(llm_const ''Q'', NextQuestion), (llm_const ''Q'', ProcessUserAnswer ''late''),
                      (llm_const ''Q'', StreamNextQuestion), (llm_const ''Q'', Stop)]
                  stopped_session)) = None \<and>
   history (state (exec [(llm_const ''Q'', NextQuestion), (llm_const ''Q'', ProcessUserAnswer ''late''),
                      (llm_const ''Q'', StreamNextQuestion), (llm_const ''Q'', Stop)]
                  stopped_session)) = Some []"
proof -
  have a: "stopped_session = exec [(llm_down, Stop), (llm_down, NextQuestion)]
             (started sample_panel ''notes'' 8)"
    by (simp add: stopped_session_def sample_orchestrator_def)
  have b: "mode (state stopped_session) = Some Done"
    by (simp add: stopped_session_state)
  from done_is_terminal [OF a b] b show ?thesis
    by (simp add: stopped_session_state sample_state_simps)
qed

section \<open>Asking without a mode check\<close>


lemma next_question_mode_reset:
  "app self \<Longrightarrow>
     next_question l (self\<lparr>state := (state self)\<lparr>mode := m\<rparr>\<rparr>) = next_question l self"
  by (simp add: next_question_def Let_def split: prod.splits sum.splits)

lemma sample_facts:
  "length (panel (sample_orchestrator mt)) = 3"
  "speaker (sample_orchestrator mt) (state (sample_orchestrator mt)) = ''Domain Expert''"
  "speaker_prompt (sample_orchestrator mt) ''Domain Expert'' = ''You are a domain expert interviewer.''"
  "speaker_prompt (sample_orchestrator mt) ''Systems Expert'' = ''You are a systems design interviewer.''"
  "stopping (sample_orchestrator mt) (state (sample_orchestrator mt)) = (mt \<le> 0)"
  by (simp_all add: sample_state_simps sample_panel_def speaker_def speaker_prompt_def
        entry_name_def agent_index_def sme_prompt_def stopping_def get_force_stop_def
        get_turn_index_def get_max_turns_def)


lemma next_question_sample:
  assumes "0 < mt"
  shows "next_question (llm_const q) (sample_orchestrator mt) =
     (Inr (strip q, ''Domain Expert'', False),
      (sample_orchestrator mt)\<lparr>state := (state (sample_orchestrator mt))
         \<lparr>current_agent := Some ''Domain Expert'', last_question := Some (strip q),
          mode := Some AwaitAnswer\<rparr>\<rparr>,
      [Invoke ''You are a domain expert interviewer.'' (ask_prompt (state (sample_orchestrator mt)))])"
proof -
  have "next_question (llm_const q) (sample_orchestrator mt) =
     (Inr (strip (or_empty (Some q)),
           speaker (sample_orchestrator mt) (state (sample_orchestrator mt)), False),
      (sample_orchestrator mt)\<lparr>state := (state (sample_orchestrator mt))
         \<lparr>current_agent := Some (speaker (sample_orchestrator mt) (state (sample_orchestrator mt))),
          last_question := Some (strip (or_empty (Some q))),
          mode := Some AwaitAnswer\<rparr>\<rparr>,
      [Invoke (speaker_prompt (sample_orchestrator mt)
                 (speaker (sample_orchestrator mt) (state (sample_orchestrator mt))))
              (ask_prompt (state (sample_orchestrator mt)))])"
    using assms
    by (intro next_question_asks) (simp_all add: sample_facts sample_state_simps(3) llm_const_def)
  then show ?thesis by (simp add: sample_facts or_empty_def)
qed

lemma asked_session_state:
  "asked_session = (sample_orchestrator 8)\<lparr>state := (state (sample_orchestrator 8))
         \<lparr>current_agent := Some ''Domain Expert'', last_question := Some ''Q1'',
          mode := Some AwaitAnswer\<rparr>\<rparr>"
  by (simp add: asked_session_def exec_def apply_op_def next_question_sample strip_def is_space_def)



section \<open>The streaming question\<close>

lemma events_of_append: "events_of (xs @ ys) = events_of xs @ events_of ys"
  by (induction xs rule: events_of.induct) simp_all

lemma events_of_chunks: "events_of (map (\<lambda>x. Emit (f x)) ps) = map f ps"
  by (induction ps) simp_all

lemma ask_prompt_asked [simp]: "ask_prompt (asked r s) = ask_prompt s"
  by (simp add: ask_prompt_def asked_def compose_context_def get_history_def)

lemma stream_next_question_done:
  assumes "app self" and "stopping self (state self)"
  shows "stream_next_question l self =
     (Inr ([], [], True), self\<lparr>state := (state self)\<lparr>mode := Some Done\<rparr>\<rparr>, [])"
proof -
  have a: "stopping self ((state self)\<lparr>mode := m\<rparr>)" for m using assms(2) by simp
  show ?thesis
    using assms(1) by (simp add: stream_next_question_def invoke_stopping [OF a])
qed

lemma stream_next_question_streams:
  assumes "app self" and "\<not> stopping self (state self)" and "length (panel self) = 3"
    and "speaker self (state self) \<noteq> []"
    and "complete l (speaker_prompt self (speaker self (state self))) (ask_prompt (state self)) = Returns r"
    and "stream l (speaker_prompt self (speaker self (state self))) (ask_prompt (state self)) = (pieces, False)"
  shows "stream_next_question l self =
     (Inr (strip (concat pieces), speaker self (state self), False),
      self\<lparr>state := (state self)\<lparr>current_agent := Some (speaker self (state self)),
                 last_question := Some (strip (concat pieces)), mode := Some AwaitAnswer\<rparr>\<rparr>,
      [Invoke (speaker_prompt self (speaker self (state self))) (ask_prompt (state self)),
       Emit (QuestionStart (speaker self (state self))),
       InvokeStream (speaker_prompt self (speaker self (state self))) (ask_prompt (state self))]
      @ map (\<lambda>piece. Emit (QuestionChunk piece)) pieces
      @ [Emit (QuestionEnd (speaker self (state self)))])"
proof -
  let ?s0 = "(state self)\<lparr>mode := Some Route\<rparr>"
  let ?s1 = "asked r (routed self ?s0)"
  have a: "\<not> stopping self ?s0" "mode ?s0 = Some Route \<or> mode ?s0 = None" "speaker self ?s0 \<noteq> []"
    using assms(2,4) by simp_all
  have i1: "invoke self l ?s0 = (Inr ?s1,
      [Invoke (speaker_prompt self (speaker self (state self))) (ask_prompt (state self))])"
    using assms(5) by (simp add: invoke_route [OF a(1,2) assms(3) a(3)])
  have s1: "?s1 = (state self)\<lparr>current_agent := Some (speaker self (state self)),
                 last_question := Some (strip (or_empty r)), mode := Some AwaitAnswer\<rparr>"
    by (simp add: asked_def routed_def speaker_def get_turn_index_def)
  have ne: "panel self \<noteq> []" using assms(3) by auto
  have p1: "ask_prompt ?s1 = ask_prompt (state self)" by simp
  show ?thesis
    using assms(1) ne assms(6)
    by (simp add: stream_next_question_def Let_def i1 p1 del: ask_prompt_asked)
       (simp add: s1 speaker_prompt_def Let_def)
qed

text \<open>
  Claim C7. On an initialised orchestrator, when the routing step finds the session
  stopping, \<open>stream_next_question\<close> returns \<open>done = True\<close> with an empty trace: no
  call to the service and no event. Otherwise (three-entry panel, a speaker with a name,
  the service answering the routing walk and ending its stream without an error) the
  events are one \<open>question_start\<close> with the speaker, one \<open>question_chunk\<close> per
  piece in order, and one \<open>question_end\<close>; \<open>last_question\<close> is the stripped
  concatenation of the pieces and the mode is \<open>await_answer\<close>.
\<close>

theorem stream_next_question_protocol:
  assumes "app self"
  shows
  "(stopping self (state self) \<longrightarrow>
      stream_next_question l self =
        (Inr ([], [], True), self\<lparr>state := (state self)\<lparr>mode := Some Done\<rparr>\<rparr>, [])) \<and>
   (\<not> stopping self (state self) \<and> length (panel self) = 3 \<and>
    speaker self (state self) \<noteq> [] \<and>
    complete l (speaker_prompt self (speaker self (state self))) (ask_prompt (state self)) = Returns r \<and>
    stream l (speaker_prompt self (speaker self (state self))) (ask_prompt (state self)) = (pieces, False)
    \<longrightarrow>
      fst (stream_next_question l self) =
        Inr (strip (concat pieces), speaker self (state self), False) \<and>
      events_of (snd (snd (stream_next_question l self))) =
        QuestionStart (speaker self (state self)) # map QuestionChunk pieces
          @ [QuestionEnd (speaker self (state self))] \<and>
      state (fst (snd (stream_next_question l self))) =
        (state self)\<lparr>current_agent := Some (speaker self (state self)),
                      last_question := Some (strip (concat pieces)), mode := Some AwaitAnswer\<rparr>)"
  using assms
  by (auto simp: stream_next_question_done stream_next_question_streams events_of_append
        events_of_chunks)

text \<open>
  A stopped session streams nothing; a fresh one streams three pieces.
\<close>

theorem stream_next_question_protocol_witness:
  "stream_next_question llm_pieces stopped_session = (Inr ([], [], True), stopped_session, []) \<and>
   fst (stream_next_question llm_pieces (sample_orchestrator 8)) =
     Inr (''What is CAP?'', ''Domain Expert'', False) \<and>
   events_of (snd (snd (stream_next_question llm_pieces (sample_orchestrator 8)))) =
     [QuestionStart ''Domain Expert'', QuestionChunk ''What '', QuestionChunk ''is '',
      QuestionChunk ''CAP? '', QuestionEnd ''Domain Expert''] \<and>
   last_question (state (fst (snd (stream_next_question llm_pieces (sample_orchestrator 8))))) =
     Some ''What is CAP?'' \<and>
   mode (state (fst (snd (stream_next_question llm_pieces (sample_orchestrator 8))))) =
     Some AwaitAnswer"
proof -
  have ap: "app stopped_session"
    by (simp add: stopped_session_def exec_ok session_ok_init sample_orchestrator_def
          session_ok_def [THEN iffD1, THEN conjunct1])
  have st: "stopping stopped_session (state stopped_session)"
    by (simp add: stopped_session_state stopping_def get_force_stop_def)
  have idm: "stopped_session\<lparr>state := (state stopped_session)\<lparr>mode := Some Done\<rparr>\<rparr> = stopped_session"
    by (simp add: stopped_session_state)
  have ap8: "app (sample_orchestrator 8)" by (simp add: sample_state_simps)
  have h: "\<not> stopping (sample_orchestrator 8) (state (sample_orchestrator 8)) \<and>
      length (panel (sample_orchestrator 8)) = 3 \<and>
      speaker (sample_orchestrator 8) (state (sample_orchestrator 8)) \<noteq> [] \<and>
      complete llm_pieces
        (speaker_prompt (sample_orchestrator 8) (speaker (sample_orchestrator 8) (state (sample_orchestrator 8))))
        (ask_prompt (state (sample_orchestrator 8))) = Returns (Some ''draft'') \<and>
      stream llm_pieces
        (speaker_prompt (sample_orchestrator 8) (speaker (sample_orchestrator 8) (state (sample_orchestrator 8))))
        (ask_prompt (state (sample_orchestrator 8))) = ([''What '', ''is '', ''CAP? ''], False)"
    by (simp add: sample_facts llm_pieces_def)
  from stream_next_question_protocol [OF ap, of llm_pieces] st idm
  have a: "stream_next_question llm_pieces stopped_session = (Inr ([], [], True), stopped_session, [])"
    by simp
  from stream_next_question_protocol [OF ap8, of llm_pieces "Some ''draft''" "[''What '', ''is '', ''CAP? '']"] h
  have b: "fst (stream_next_question llm_pieces (sample_orchestrator 8)) =
        Inr (strip (concat [''What '', ''is '', ''CAP? '']),
             speaker (sample_orchestrator 8) (state (sample_orchestrator 8)), False) \<and>
      events_of (snd (snd (stream_next_question llm_pieces (sample_orchestrator 8)))) =
        QuestionStart (speaker (sample_orchestrator 8) (state (sample_orchestrator 8)))
          # map QuestionChunk [''What '', ''is '', ''CAP? '']
          @ [QuestionEnd (speaker (sample_orchestrator 8) (state (sample_orchestrator 8)))] \<and>
      state (fst (snd (stream_next_question llm_pieces (sample_orchestrator 8)))) =
        (state (sample_orchestrator 8))\<lparr>current_agent :=
             Some (speaker (sample_orchestrator 8) (state (sample_orchestrator 8))),
           last_question := Some (strip (concat [''What '', ''is '', ''CAP? ''])),
           mode := Some AwaitAnswer\<rparr>"
    by blast
  note b1 = b [THEN conjunct1] and b2 = b [THEN conjunct2, THEN conjunct1]
    and b3 = b [THEN conjunct2, THEN conjunct2]
  show ?thesis
    by (simp add: a b1 b2 b3 sample_facts strip_def is_space_def)
qed

section \<open>Submitting an answer\<close>

lemma stopping_answered [simp]: "stopping self (answered a s) = stopping self s"
  by (rule stopping_cong) (simp_all add: answered_def)

lemma speaker_answered [simp]: "speaker self (answered a s) = speaker self s"
  by (simp add: speaker_def answered_def get_turn_index_def)

lemma stopping_judged [simp]: "stopping self (judged r s) = stopping self s"
  by (rule stopping_cong) (simp_all add: judged_def)

lemma process_user_answer_done:
  assumes "app self" and "stopping self (state self)"
  shows "process_user_answer l a self =
     (Inr True, self\<lparr>state := (counted (answered a (state self)))\<lparr>mode := Some Done\<rparr>\<rparr>, [])"
proof -
  have a: "stopping self ((state self)\<lparr>user_answer := Some a, mode := Some Feedback\<rparr>)"
    using assms(2) stopping_answered [of self a "state self"] by (simp add: answered_def)
  have b: "stopping self ((state self)\<lparr>user_answer := Some a, mode := Some Done,
             turn_index := Some (get_turn_index ((state self)\<lparr>user_answer := Some a, mode := Some Done\<rparr>) + 1)\<rparr>)"
    using assms(2)
    by (auto simp: stopping_def get_force_stop_def get_turn_index_def get_max_turns_def)
  show ?thesis
    using assms(1)
    by (simp add: process_user_answer_def Let_def invoke_stopping [OF a] invoke_stopping [OF b])
       (simp add: counted_def answered_def get_turn_index_def)
qed

lemma process_user_answer_turn:
  assumes "app self" and "\<not> stopping self (state self)" and "length (panel self) = 3"
    and "current_agent (state self) = Some cur" and "cur \<noteq> []"
    and "speaker self (state self) \<noteq> []"
    and "complete l (speaker_prompt self cur) (feedback_prompt (answered a (state self))) = Returns r"
    and "complete l (speaker_prompt self (speaker self (state self)))
           (ask_prompt (judged r (answered a (state self)))) = Returns r'"
  shows "process_user_answer l a self =
     (Inr (stopping self (counted (state self))),
      self\<lparr>state := settled self
         (counted (asked r' (routed self (judged r (answered a (state self))))))\<rparr>,
      [Invoke (speaker_prompt self cur) (feedback_prompt (answered a (state self))),
       Invoke (speaker_prompt self (speaker self (state self)))
         (ask_prompt (judged r (answered a (state self))))])"
proof -
  let ?s0 = "answered a (state self)"
  let ?s1 = "asked r' (routed self (judged r ?s0))"
  have s0: "(state self)\<lparr>user_answer := Some a, mode := Some Feedback\<rparr> = ?s0"
    by (simp add: answered_def)
  have a: "\<not> stopping self ?s0" "mode ?s0 = Some Feedback" "current_agent ?s0 = Some cur"
      "speaker self ?s0 \<noteq> []"
    using assms(2,4,6) by (simp_all) (simp_all add: answered_def)
  have i1: "invoke self l ?s0 = (Inr ?s1,
      [Invoke (speaker_prompt self cur) (feedback_prompt ?s0),
       Invoke (speaker_prompt self (speaker self (state self))) (ask_prompt (judged r ?s0))])"
    using assms(7,8)
    by (simp add: invoke_feedback [OF a(1,2) assms(3) a(3) assms(5) a(4)])
  have t1: "get_turn_index ?s1 = get_turn_index (state self)"
    by (simp add: asked_def routed_def judged_def answered_def get_turn_index_def)
  have c: "counted ?s1 = ?s1\<lparr>turn_index := Some (get_turn_index ?s1 + 1)\<rparr>"
    by (simp add: counted_def)
  have st: "stopping self (counted ?s1) = stopping self (counted (state self))"
    by (rule stopping_cong)
       (simp_all add: counted_def asked_def routed_def judged_def answered_def get_turn_index_def)
  have m: "mode (counted ?s1) = Some AwaitAnswer"
    by (simp add: counted_def asked_def)
  have i2: "invoke self l (counted ?s1) =
      (Inr (settled self (counted ?s1)), [])"
  proof (cases "stopping self (counted ?s1)")
    case True
    then show ?thesis by (simp add: invoke_stopping settled_def)
  next
    case False
    from invoke_await [OF False m assms(3)] False show ?thesis by (simp add: settled_def)
  qed
  have d: "(mode (settled self (counted ?s1)) = Some Done) = stopping self (counted (state self))"
    using m st by (simp add: settled_def)
  show ?thesis
    using assms(1)
    by (simp add: process_user_answer_def Let_def s0 i1 c [symmetric] i2 d)
qed

section \<open>Answers are accepted in every mode\<close>


lemma next_question_raises:
  assumes "app self" and "\<not> stopping self (state self)" and "length (panel self) = 3"
    and "speaker self (state self) \<noteq> []"
    and "complete l (speaker_prompt self (speaker self (state self))) (ask_prompt (state self)) = Raises"
  shows "next_question l self =
     (Inl GenerationError, self\<lparr>state := (state self)\<lparr>mode := Some Route\<rparr>\<rparr>,
      [Invoke (speaker_prompt self (speaker self (state self))) (ask_prompt (state self))])"
proof -
  let ?s0 = "(state self)\<lparr>mode := Some Route\<rparr>"
  have a: "\<not> stopping self ?s0" "mode ?s0 = Some Route \<or> mode ?s0 = None" "speaker self ?s0 \<noteq> []"
    using assms(2,4) by simp_all
  have i1: "invoke self l ?s0 = (Inl (GenerationError, routed self ?s0),
      [Invoke (speaker_prompt self (speaker self (state self))) (ask_prompt (state self))])"
    using assms(5) by (simp add: invoke_route [OF a(1,2) assms(3) a(3)])
  show ?thesis using assms(1) by (simp add: next_question_def Let_def i1)
qed

lemma history_turned:
  "get_history (settled self (counted (asked r' (routed self (judged r (answered a s)))))) =
     get_history s @ [\<lparr>agent = (case current_agent s of None \<Rightarrow> ''Expert'' | Some c \<Rightarrow> c),
        question = or_empty (last_question s), h_user_answer = a, feedback = strip (or_empty r)\<rparr>]"
  by (simp add: settled_def counted_def asked_def routed_def judged_def answered_def
        get_history_def or_empty_def)



lemma interrupted_session_state:
  "interrupted_session = (sample_orchestrator 8)\<lparr>state := (state (sample_orchestrator 8))
         \<lparr>current_agent := Some ''Domain Expert'', last_question := Some ''Q1'',
          mode := Some Route\<rparr>\<rparr>"
proof -
  have e: "interrupted_session = apply_op llm_down NextQuestion asked_session"
    by (simp add: interrupted_session_def asked_session_def exec_def)
  have sp: "speaker asked_session (state asked_session) = ''Domain Expert''"
    by (simp add: asked_session_state speaker_def sample_state_simps sample_panel_def
          entry_name_def get_turn_index_def)
  have "next_question llm_down asked_session =
     (Inl GenerationError, asked_session\<lparr>state := (state asked_session)\<lparr>mode := Some Route\<rparr>\<rparr>,
      [Invoke (speaker_prompt asked_session (speaker asked_session (state asked_session)))
         (ask_prompt (state asked_session))])"
    by (intro next_question_raises)
       (simp_all add: sp, simp_all add: asked_session_state sample_state_simps sample_panel_def
          stopping_def get_force_stop_def get_turn_index_def get_max_turns_def llm_down_def)
  then show ?thesis
    unfolding e by (simp add: apply_op_def) (simp add: asked_session_state)
qed

lemma interrupted_facts:
  "app interrupted_session"
  "\<not> stopping interrupted_session (state interrupted_session)"
  "length (panel interrupted_session) = 3"
  "current_agent (state interrupted_session) = Some ''Domain Expert''"
  "speaker interrupted_session (state interrupted_session) = ''Domain Expert''"
  "last_question (state interrupted_session) = Some ''Q1''"
  "get_history (state interrupted_session) = []"
  "mode (state interrupted_session) = Some Route"
  by (simp_all add: interrupted_session_state sample_state_simps sample_panel_def speaker_def
        entry_name_def stopping_def get_force_stop_def get_turn_index_def get_max_turns_def
        get_history_def)



section \<open>Generation failures and empty results\<close>

lemma run_feedback_raises:
  assumes "\<not> stopping self s" and "mode s = Some Feedback" and "length (panel self) = 3"
    and "current_agent s = Some cur" and "cur \<noteq> []"
    and "complete l (speaker_prompt self cur) (feedback_prompt s) = Raises"
  shows "run (Suc (Suc n)) self l N_route s =
     (Inl (GenerationError, s), [Invoke (speaker_prompt self cur) (feedback_prompt s)])"
proof -
  from assms(3) have ne: "panel self \<noteq> []" by auto
  have j: "agent_index (panel self) c < 3" for c
    using agent_index_lt [OF ne, of c] assms(3) by simp
  have r: "route self s = Inr s"
    using assms(1,2) by (simp add: route_def)
  have f: "from_route_cond self s = N_sme (agent_index (panel self) cur)"
    using assms(2,4,5) by (simp add: from_route_cond_def)
  have n: "node (speaker_prompt self cur) l s =
      (Some GenerationError, s, [Invoke (speaker_prompt self cur) (feedback_prompt s)])"
    using assms(2,6) by (simp add: node_def Let_def)
  show ?thesis
    using j assms(3) n by (simp add: r f speaker_prompt_def)
qed

lemmas invoke_feedback_raises = run_feedback_raises [where n = 23, folded invoke_run2]

lemma process_user_answer_raises:
  assumes "app self" and "\<not> stopping self (state self)" and "length (panel self) = 3"
    and "current_agent (state self) = Some cur" and "cur \<noteq> []"
    and "complete l (speaker_prompt self cur) (feedback_prompt (answered a (state self))) = Raises"
  shows "process_user_answer l a self =
     (Inl GenerationError, self\<lparr>state := answered a (state self)\<rparr>,
      [Invoke (speaker_prompt self cur) (feedback_prompt (answered a (state self)))])"
proof -
  let ?s0 = "answered a (state self)"
  have s0: "(state self)\<lparr>user_answer := Some a, mode := Some Feedback\<rparr> = ?s0"
    by (simp add: answered_def)
  have a: "\<not> stopping self ?s0" "mode ?s0 = Some Feedback" "current_agent ?s0 = Some cur"
    using assms(2,4) by (simp_all) (simp_all add: answered_def)
  have i1: "invoke self l ?s0 =
      (Inl (GenerationError, ?s0), [Invoke (speaker_prompt self cur) (feedback_prompt ?s0)])"
    by (rule invoke_feedback_raises [OF a(1,2) assms(3) a(3) assms(5,6)])
  show ?thesis
    using assms(1) by (simp add: process_user_answer_def Let_def s0 i1)
qed

lemma process_user_answer_again:
  "app self \<Longrightarrow>
     process_user_answer l a (self\<lparr>state := answered a (state self)\<rparr>) = process_user_answer l a self"
  by (simp add: process_user_answer_def Let_def answered_def split: prod.splits sum.splits)

lemma process_user_answer_reask_raises:
  assumes "app self" and "\<not> stopping self (state self)" and "length (panel self) = 3"
    and "current_agent (state self) = Some cur" and "cur \<noteq> []"
    and "speaker self (state self) \<noteq> []"
    and "complete l (speaker_prompt self cur) (feedback_prompt (answered a (state self))) = Returns r"
    and "complete l (speaker_prompt self (speaker self (state self)))
           (ask_prompt (judged r (answered a (state self)))) = Raises"
  shows "process_user_answer l a self =
     (Inl GenerationError,
      self\<lparr>state := leak (answered a (state self)) (judged r (answered a (state self)))\<rparr>,
      [Invoke (speaker_prompt self cur) (feedback_prompt (answered a (state self))),
       Invoke (speaker_prompt self (speaker self (state self)))
         (ask_prompt (judged r (answered a (state self))))])"
proof -
  let ?s0 = "answered a (state self)"
  have s0: "(state self)\<lparr>user_answer := Some a, mode := Some Feedback\<rparr> = ?s0"
    by (simp add: answered_def)
  have a: "\<not> stopping self ?s0" "mode ?s0 = Some Feedback" "current_agent ?s0 = Some cur"
      "speaker self ?s0 \<noteq> []"
    using assms(2,4,6) by (simp_all) (simp_all add: answered_def)
  have i1: "invoke self l ?s0 = (Inl (GenerationError, routed self (judged r ?s0)),
      [Invoke (speaker_prompt self cur) (feedback_prompt ?s0),
       Invoke (speaker_prompt self (speaker self (state self))) (ask_prompt (judged r ?s0))])"
    using assms(7,8)
    by (simp add: invoke_feedback [OF a(1,2) assms(3) a(3) assms(5) a(4)])
  have lk: "leak ?s0 (routed self (judged r ?s0)) = leak ?s0 (judged r ?s0)"
    by (simp add: leak_def split: option.splits)
  show ?thesis
    using assms(1) by (simp add: process_user_answer_def Let_def s0 i1 lk)
qed

text \<open>
  Claim C3, as the code has it. When the service raises, the error leaves the persona node
  and the node has written no key. In a session on a three-entry panel that is not stopping:
  when the call of the \<open>ask\<close> branch raises inside \<open>next_question\<close> (the speaker of the
  turn having a name), \<open>next_question\<close> raises the error and the state is the one before
  the call but for \<open>mode\<close>, which \<open>next_question\<close> has set to \<open>route\<close>; when the call
  of the \<open>feedback\<close> branch raises inside \<open>process_user_answer\<close> (the current agent
  having a name), \<open>process_user_answer\<close> raises the error and the state is the one before
  the call but for \<open>user_answer\<close> and \<open>mode\<close>, which \<open>process_user_answer\<close> has set to
  the answer and to \<open>feedback\<close>. In both cases nothing is stored as \<open>last_question\<close>,
  the history and \<open>turn_index\<close> are as before, and the same operation called again on
  the state left behind has the outcome it would have had on the state before the failed
  call, whatever the service then answers. When the service returns an empty result (no
  content, or only white space) nothing is raised: the \<open>ask\<close> branch stores the empty
  string as \<open>last_question\<close> and sets \<open>mode = await_answer\<close>, so \<open>next_question\<close>
  returns the empty question; the \<open>feedback\<close> branch appends a turn with empty feedback
  and sets \<open>mode = route\<close>.
\<close>

theorem generation_failure_outcomes:
  "(mode s = Some Ask \<and> complete l sp (ask_prompt s) = Raises \<longrightarrow>
      node sp l s = (Some GenerationError, s, [Invoke sp (ask_prompt s)])) \<and>
   (mode s = Some Feedback \<and> complete l sp (feedback_prompt s) = Raises \<longrightarrow>
      node sp l s = (Some GenerationError, s, [Invoke sp (feedback_prompt s)])) \<and>
   (app self \<and> \<not> stopping self (state self) \<and> length (panel self) = 3 \<and>
    speaker self (state self) \<noteq> [] \<and>
    complete l (speaker_prompt self (speaker self (state self))) (ask_prompt (state self)) = Raises
    \<longrightarrow>
      next_question l self =
        (Inl GenerationError, self\<lparr>state := (state self)\<lparr>mode := Some Route\<rparr>\<rparr>,
         [Invoke (speaker_prompt self (speaker self (state self))) (ask_prompt (state self))]) \<and>
      next_question l' (fst (snd (next_question l self))) = next_question l' self) \<and>
   (app self \<and> \<not> stopping self (state self) \<and> length (panel self) = 3 \<and>
    current_agent (state self) = Some cur \<and> cur \<noteq> [] \<and>
    complete l (speaker_prompt self cur) (feedback_prompt (answered a (state self))) = Raises
    \<longrightarrow>
      process_user_answer l a self =
        (Inl GenerationError,
         self\<lparr>state := (state self)\<lparr>user_answer := Some a, mode := Some Feedback\<rparr>\<rparr>,
         [Invoke (speaker_prompt self cur) (feedback_prompt (answered a (state self)))]) \<and>
      process_user_answer l' a (fst (snd (process_user_answer l a self))) =
        process_user_answer l' a self) \<and>
   (mode s = Some Ask \<and> complete l sp (ask_prompt s) = Returns r \<and> strip (or_empty r) = [] \<longrightarrow>
      node sp l s =
        (None, s\<lparr>last_question := Some [], mode := Some AwaitAnswer\<rparr>,
         [Invoke sp (ask_prompt s)])) \<and>
   (mode s = Some Feedback \<and> complete l sp (feedback_prompt s) = Returns r \<and>
      strip (or_empty r) = [] \<longrightarrow>
      node sp l s =
        (None,
         s\<lparr>last_feedback := Some [],
           history := Some (get_history s @
             [\<lparr>agent = (case current_agent s of None \<Rightarrow> ''Expert'' | Some a \<Rightarrow> a),
               question = or_empty (last_question s),
               h_user_answer = or_empty (user_answer s), feedback = []\<rparr>]),
           mode := Some Route\<rparr>,
         [Invoke sp (feedback_prompt s)])) \<and>
   (app self \<and> \<not> stopping self (state self) \<and> length (panel self) = 3 \<and>
    speaker self (state self) \<noteq> [] \<and>
    complete l (speaker_prompt self (speaker self (state self))) (ask_prompt (state self)) = Returns r \<and>
    strip (or_empty r) = []
    \<longrightarrow>
      next_question l self =
        (Inr ([], speaker self (state self), False),
         self\<lparr>state := (state self)\<lparr>current_agent := Some (speaker self (state self)),
                    last_question := Some [], mode := Some AwaitAnswer\<rparr>\<rparr>,
         [Invoke (speaker_prompt self (speaker self (state self))) (ask_prompt (state self))]))"
proof (intro conjI impI)
  assume h: "app self \<and> \<not> stopping self (state self) \<and> length (panel self) = 3 \<and>
    speaker self (state self) \<noteq> [] \<and>
    complete l (speaker_prompt self (speaker self (state self))) (ask_prompt (state self)) = Raises"
  then have p: "next_question l self =
        (Inl GenerationError, self\<lparr>state := (state self)\<lparr>mode := Some Route\<rparr>\<rparr>,
         [Invoke (speaker_prompt self (speaker self (state self))) (ask_prompt (state self))])"
    by (intro next_question_raises) simp_all
  then show "next_question l self =
        (Inl GenerationError, self\<lparr>state := (state self)\<lparr>mode := Some Route\<rparr>\<rparr>,
         [Invoke (speaker_prompt self (speaker self (state self))) (ask_prompt (state self))])" .
  from h have "app self" by simp
  then show "next_question l' (fst (snd (next_question l self))) = next_question l' self"
    unfolding p by (simp add: next_question_mode_reset)
next
  assume h: "app self \<and> \<not> stopping self (state self) \<and> length (panel self) = 3 \<and>
    current_agent (state self) = Some cur \<and> cur \<noteq> [] \<and>
    complete l (speaker_prompt self cur) (feedback_prompt (answered a (state self))) = Raises"
  then have p: "process_user_answer l a self =
     (Inl GenerationError, self\<lparr>state := answered a (state self)\<rparr>,
      [Invoke (speaker_prompt self cur) (feedback_prompt (answered a (state self)))])"
    by (intro process_user_answer_raises) simp_all
  then show "process_user_answer l a self =
        (Inl GenerationError,
         self\<lparr>state := (state self)\<lparr>user_answer := Some a, mode := Some Feedback\<rparr>\<rparr>,
         [Invoke (speaker_prompt self cur) (feedback_prompt (answered a (state self)))])"
    by (simp add: answered_def)
  from h have "app self" by simp
  then show "process_user_answer l' a (fst (snd (process_user_answer l a self))) =
        process_user_answer l' a self"
    unfolding p by (simp add: process_user_answer_again)
next
  assume h: "app self \<and> \<not> stopping self (state self) \<and> length (panel self) = 3 \<and>
    speaker self (state self) \<noteq> [] \<and>
    complete l (speaker_prompt self (speaker self (state self))) (ask_prompt (state self)) = Returns r \<and>
    strip (or_empty r) = []"
  then have "next_question l self =
     (Inr (strip (or_empty r), speaker self (state self), False),
      self\<lparr>state := (state self)\<lparr>current_agent := Some (speaker self (state self)),
                 last_question := Some (strip (or_empty r)), mode := Some AwaitAnswer\<rparr>\<rparr>,
      [Invoke (speaker_prompt self (speaker self (state self))) (ask_prompt (state self))])"
    by (intro next_question_asks) simp_all
  with h show "next_question l self =
        (Inr ([], speaker self (state self), False),
         self\<lparr>state := (state self)\<lparr>current_agent := Some (speaker self (state self)),
                    last_question := Some [], mode := Some AwaitAnswer\<rparr>\<rparr>,
         [Invoke (speaker_prompt self (speaker self (state self))) (ask_prompt (state self))])"
    by simp
qed (simp_all add: node_def Let_def)

lemma asked_facts:
  "app asked_session"
  "\<not> stopping asked_session (state asked_session)"
  "length (panel asked_session) = 3"
  "current_agent (state asked_session) = Some ''Domain Expert''"
  "speaker asked_session (state asked_session) = ''Domain Expert''"
  "last_question (state asked_session) = Some ''Q1''"
  "user_answer (state asked_session) = None"
  "history (state asked_session) = Some []"
  "get_history (state asked_session) = []"
  "turn_index (state asked_session) = Some 0"
  "mode (state asked_session) = Some AwaitAnswer"
  "speaker_prompt asked_session ''Domain Expert'' = ''You are a domain expert interviewer.''"
  by (simp_all add: asked_session_state sample_state_simps sample_panel_def speaker_def
        speaker_prompt_def agent_index_def sme_prompt_def
        entry_name_def stopping_def get_force_stop_def get_turn_index_def get_max_turns_def
        get_history_def)

text \<open>
  C3 as stated fails. On a result without content \<open>next_question\<close> raises nothing and
  stores the empty question with \<open>mode = await_answer\<close>, and the \<open>feedback\<close> branch
  appends a turn. When the service raises, the mode is not the one before the call: after
  \<open>next_question\<close> in a session waiting for an answer it is \<open>route\<close>, and after
  \<open>process_user_answer\<close> it is \<open>feedback\<close> and the answer is stored.
\<close>

theorem generation_failure_counterexample:
  "fst (next_question llm_none (sample_orchestrator 8)) = Inr ([], ''Domain Expert'', False) \<and>
   last_question (state (sample_orchestrator 8)) = None \<and>
   last_question (state (fst (snd (next_question llm_none (sample_orchestrator 8))))) = Some [] \<and>
   mode (state (fst (snd (next_question llm_none (sample_orchestrator 8))))) = Some AwaitAnswer \<and>
   fst (node ''You are a domain expert interviewer.'' llm_none answered_state) = None \<and>
   get_history (fst (snd (node ''You are a domain expert interviewer.'' llm_none answered_state))) =
     [\<lparr>agent = ''Domain Expert'', question = ''Q'', h_user_answer = ''A'', feedback = []\<rparr>] \<and>
   mode (state asked_session) = Some AwaitAnswer \<and>
   fst (next_question llm_down asked_session) = Inl GenerationError \<and>
   mode (state (fst (snd (next_question llm_down asked_session)))) = Some Route \<and>
   user_answer (state asked_session) = None \<and>
   fst (process_user_answer llm_down ''my answer'' asked_session) = Inl GenerationError \<and>
   mode (state (fst (snd (process_user_answer llm_down ''my answer'' asked_session)))) =
     Some Feedback \<and>
   user_answer (state (fst (snd (process_user_answer llm_down ''my answer'' asked_session)))) =
     Some ''my answer''"
proof -
  have a: "next_question llm_none (sample_orchestrator 8) =
     (Inr (strip (or_empty None),
           speaker (sample_orchestrator 8) (state (sample_orchestrator 8)), False),
      (sample_orchestrator 8)\<lparr>state := (state (sample_orchestrator 8))
         \<lparr>current_agent := Some (speaker (sample_orchestrator 8) (state (sample_orchestrator 8))),
          last_question := Some (strip (or_empty None)),
          mode := Some AwaitAnswer\<rparr>\<rparr>,
      [Invoke (speaker_prompt (sample_orchestrator 8)
                 (speaker (sample_orchestrator 8) (state (sample_orchestrator 8))))
              (ask_prompt (state (sample_orchestrator 8)))])"
    by (intro next_question_asks) (simp_all add: sample_facts sample_state_simps(3) llm_none_def)
  have b: "next_question llm_down asked_session =
     (Inl GenerationError, asked_session\<lparr>state := (state asked_session)\<lparr>mode := Some Route\<rparr>\<rparr>,
      [Invoke (speaker_prompt asked_session (speaker asked_session (state asked_session)))
         (ask_prompt (state asked_session))])"
    by (intro next_question_raises) (simp_all add: asked_facts llm_down_def)
  have c: "process_user_answer llm_down ''my answer'' asked_session =
     (Inl GenerationError, asked_session\<lparr>state := answered ''my answer'' (state asked_session)\<rparr>,
      [Invoke (speaker_prompt asked_session ''Domain Expert'')
         (feedback_prompt (answered ''my answer'' (state asked_session)))])"
    by (intro process_user_answer_raises) (simp_all add: asked_facts llm_down_def)
  have d: "fst (node ''You are a domain expert interviewer.'' llm_none answered_state) = None \<and>
   get_history (fst (snd (node ''You are a domain expert interviewer.'' llm_none answered_state))) =
     [\<lparr>agent = ''Domain Expert'', question = ''Q'', h_user_answer = ''A'', feedback = []\<rparr>]"
    by (simp add: node_def Let_def answered_state_def llm_none_def or_empty_def
        sample_state_simps get_history_def)
  show ?thesis
    by (simp add: a b c d sample_facts asked_facts or_empty_def answered_def)
       (simp add: sample_state_simps)
qed

text \<open>
  The sample states and the session waiting for the answer to \<open>Q1\<close>, under a service
  that is down, and under one that answers white space.
\<close>

theorem generation_failure_outcomes_witness:
  "node ''You are a domain expert interviewer.'' llm_down asking_state =
     (Some GenerationError, asking_state,
      [Invoke ''You are a domain expert interviewer.'' (ask_prompt asking_state)]) \<and>
   node ''You are a domain expert interviewer.'' llm_down answered_state =
     (Some GenerationError, answered_state,
      [Invoke ''You are a domain expert interviewer.'' (feedback_prompt answered_state)]) \<and>
   next_question llm_down asked_session =
     (Inl GenerationError, asked_session\<lparr>state := (state asked_session)\<lparr>mode := Some Route\<rparr>\<rparr>,
      [Invoke ''You are a domain expert interviewer.'' (ask_prompt (state asked_session))]) \<and>
   next_question (llm_const ''Q2'') (fst (snd (next_question llm_down asked_session))) =
     next_question (llm_const ''Q2'') asked_session \<and>
   process_user_answer llm_down ''my answer'' asked_session =
     (Inl GenerationError,
      asked_session\<lparr>state := (state asked_session)\<lparr>user_answer := Some ''my answer'',
         mode := Some Feedback\<rparr>\<rparr>,
      [Invoke ''You are a domain expert interviewer.''
         (feedback_prompt (answered ''my answer'' (state asked_session)))]) \<and>
   process_user_answer (llm_const ''fine'') ''my answer''
       (fst (snd (process_user_answer llm_down ''my answer'' asked_session))) =
     process_user_answer (llm_const ''fine'') ''my answer'' asked_session \<and>
   node ''You are a domain expert interviewer.'' (llm_const ''  '') asking_state =
     (None, asking_state\<lparr>last_question := Some [], mode := Some AwaitAnswer\<rparr>,
      [Invoke ''You are a domain expert interviewer.'' (ask_prompt asking_state)]) \<and>
   fst (node ''You are a domain expert interviewer.'' (llm_const ''  '') answered_state) = None \<and>
   fst (next_question (llm_const ''  '') asked_session) = Inr ([], ''Domain Expert'', False)"
proof -
  note down = generation_failure_outcomes [where l = llm_down and self = asked_session
      and sp = "''You are a domain expert interviewer.''" and cur = "''Domain Expert''"
      and a = "''my answer''"]
  note blank = generation_failure_outcomes [where l = "llm_const ''  ''" and self = asked_session
      and sp = "''You are a domain expert interviewer.''" and r = "Some ''  ''"]
  have e: "strip (or_empty (Some ''  '')) = []"
    by (simp add: or_empty_def strip_def is_space_def)
  have m: "mode asking_state = Some Ask" "mode answered_state = Some Feedback"
    by (simp_all add: asking_state_def answered_state_def)
  from down [where s = asking_state and l' = "llm_const ''Q2''"]
    down [where s = answered_state and l' = "llm_const ''fine''"]
    blank [where s = asking_state] blank [where s = answered_state]
  show ?thesis
    by (simp add: asked_facts m e llm_down_def llm_const_def cong: conj_cong)
qed

text \<open>
  A turn is in the history as soon as the \<open>feedback\<close> branch has run. When the question
  for the next turn, asked in the same walk, then raises, \<open>process_user_answer\<close> raises
  with the turn recorded and \<open>turn_index\<close> not incremented, and the same answer submitted
  again is recorded a second time.
\<close>

lemma llm_ask_down_calls:
  "complete llm_ask_down sp (feedback_prompt s) = Returns (Some ''fine'')"
  "resume_notes s = Some ''notes'' \<Longrightarrow> complete llm_ask_down sp (ask_prompt s) = Raises"
  by (simp_all add: llm_ask_down_def feedback_prompt_def ask_prompt_def compose_context_def Let_def)

lemma turn_recorded_before_failure:
  "fst (process_user_answer llm_ask_down ''my answer'' asked_session) = Inl GenerationError \<and>
   get_history (state (fst (snd (process_user_answer llm_ask_down ''my answer'' asked_session)))) =
     [\<lparr>agent = ''Domain Expert'', question = ''Q1'', h_user_answer = ''my answer'',
       feedback = ''fine''\<rparr>] \<and>
   turn_index (state (fst (snd (process_user_answer llm_ask_down ''my answer'' asked_session)))) =
     Some 0 \<and>
   fst (process_user_answer (llm_const ''fine'') ''my answer''
     (fst (snd (process_user_answer llm_ask_down ''my answer'' asked_session)))) = Inr False \<and>
   get_history (state (fst (snd (process_user_answer (llm_const ''fine'') ''my answer''
     (fst (snd (process_user_answer llm_ask_down ''my answer'' asked_session))))))) =
     [\<lparr>agent = ''Domain Expert'', question = ''Q1'', h_user_answer = ''my answer'',
       feedback = ''fine''\<rparr>,
      \<lparr>agent = ''Domain Expert'', question = ''Q1'', h_user_answer = ''my answer'',
       feedback = ''fine''\<rparr>]"
proof -
  define o1 where "o1 = asked_session\<lparr>state := leak (answered ''my answer'' (state asked_session))
      (judged (Some ''fine'') (answered ''my answer'' (state asked_session)))\<rparr>"
  have rn: "resume_notes (judged r (answered a (state asked_session))) = Some ''notes''" for r a
    by (simp add: judged_def answered_def asked_session_state sample_state_simps)
  have p: "process_user_answer llm_ask_down ''my answer'' asked_session =
     (Inl GenerationError, o1,
      [Invoke (speaker_prompt asked_session ''Domain Expert'')
         (feedback_prompt (answered ''my answer'' (state asked_session))),
       Invoke (speaker_prompt asked_session (speaker asked_session (state asked_session)))
         (ask_prompt (judged (Some ''fine'') (answered ''my answer'' (state asked_session))))])"
    unfolding o1_def
    by (intro process_user_answer_reask_raises)
       (simp_all add: asked_facts llm_ask_down_calls rn)
  have s1: "state o1 = (state asked_session)\<lparr>user_answer := Some ''my answer'',
      mode := Some Feedback,
      history := Some [\<lparr>agent = ''Domain Expert'', question = ''Q1'',
        h_user_answer = ''my answer'', feedback = ''fine''\<rparr>]\<rparr>"
    by (simp add: o1_def leak_def judged_def answered_def asked_facts get_history_def or_empty_def
          strip_def is_space_def)
  have f: "app o1" "\<not> stopping o1 (state o1)" "length (panel o1) = 3"
    "current_agent (state o1) = Some ''Domain Expert''"
    "speaker o1 (state o1) = ''Domain Expert''"
    "last_question (state o1) = Some ''Q1''"
    "get_history (state o1) = [\<lparr>agent = ''Domain Expert'', question = ''Q1'',
        h_user_answer = ''my answer'', feedback = ''fine''\<rparr>]"
    "turn_index (state o1) = Some 0"
    by (simp_all add: o1_def leak_def judged_def answered_def asked_session_state
          sample_state_simps sample_panel_def speaker_def entry_name_def stopping_def
          get_force_stop_def get_turn_index_def get_max_turns_def get_history_def or_empty_def
          strip_def is_space_def)
  have q: "process_user_answer (llm_const ''fine'') ''my answer'' o1 =
     (Inr (stopping o1 (counted (state o1))),
      o1\<lparr>state := settled o1
         (counted (asked (Some ''fine'') (routed o1
            (judged (Some ''fine'') (answered ''my answer'' (state o1))))))\<rparr>,
      [Invoke (speaker_prompt o1 ''Domain Expert'')
         (feedback_prompt (answered ''my answer'' (state o1))),
       Invoke (speaker_prompt o1 (speaker o1 (state o1)))
         (ask_prompt (judged (Some ''fine'') (answered ''my answer'' (state o1))))])"
    by (intro process_user_answer_turn) (simp_all add: f llm_const_def)
  have ns: "\<not> stopping o1 (counted (state o1))"
    by (simp add: counted_def s1 asked_session_state sample_state_simps stopping_def
          get_force_stop_def get_turn_index_def get_max_turns_def)
  show ?thesis
    by (simp add: p q ns f history_turned or_empty_def strip_def is_space_def)
qed

section \<open>The turn counter\<close>

lemma next_question_fields:
  "turn_index (state (fst (snd (next_question l self)))) = turn_index (state self) \<and>
   max_turns (state (fst (snd (next_question l self)))) = max_turns (state self)"
  by (auto simp: next_question_def Let_def split: prod.splits sum.splits dest!: invoke_keeps)

lemma stream_next_question_fields:
  "turn_index (state (fst (snd (stream_next_question l self)))) = turn_index (state self) \<and>
   max_turns (state (fst (snd (stream_next_question l self)))) = max_turns (state self)"
  by (auto simp: stream_next_question_def Let_def split: prod.splits sum.splits dest!: invoke_keeps)

lemma process_user_answer_fields:
  "max_turns (state (fst (snd (process_user_answer l a self)))) = max_turns (state self) \<and>
   (fst (process_user_answer l a self) = Inr d \<longrightarrow>
      get_turn_index (state (fst (snd (process_user_answer l a self)))) =
        get_turn_index (state self) + 1)"
  by (auto simp: process_user_answer_def Let_def get_turn_index_def
        split: prod.splits sum.splits dest!: invoke_keeps)

lemma apply_op_max_turns:
  "max_turns (state (apply_op l opn self)) = max_turns (state self)"
  by (cases opn)
     (simp_all add: apply_op_def next_question_fields stream_next_question_fields
        process_user_answer_fields stop_def)

lemma exec_max_turns:
  "max_turns (state (exec steps self)) = max_turns (state self)"
  by (induction steps rule: rev_induct) (auto simp: exec_snoc apply_op_max_turns exec_def)

text \<open>
  Claim C5, as the code has it. In every state reached from \<open>init_graph\<close> by any
  sequence of operations, \<open>turn_index\<close> is at least 0 and \<open>max_turns\<close> is the value
  given at the start; a routing step at \<open>turn_index >= max_turns\<close> sets \<open>mode = done\<close>;
  \<open>next_question\<close>, \<open>stream_next_question\<close> and \<open>stop\<close> never change
  \<open>turn_index\<close>; and every \<open>process_user_answer\<close> that returns adds exactly one to
  it, whatever the mode and whether or not the budget is already used up.
\<close>

theorem turn_index_progress:
  assumes "self = exec steps (started p notes mt)"
  shows "0 \<le> get_turn_index (state self) \<and>
    max_turns (state self) = Some mt \<and>
    (get_max_turns self s \<le> get_turn_index s \<longrightarrow> route self s = Inr (s\<lparr>mode := Some Done\<rparr>)) \<and>
    (fst (process_user_answer l a self) = Inr d \<longrightarrow>
       get_turn_index (state (fst (snd (process_user_answer l a self)))) =
         get_turn_index (state self) + 1) \<and>
    get_turn_index (state (apply_op l NextQuestion self)) = get_turn_index (state self) \<and>
    get_turn_index (state (apply_op l StreamNextQuestion self)) = get_turn_index (state self) \<and>
    get_turn_index (state (apply_op l Stop self)) = get_turn_index (state self)"
proof -
  from assms have "session_ok self" by (simp add: exec_ok session_ok_init)
  then have a: "0 \<le> get_turn_index (state self)" by (simp add: session_ok_def)
  have b: "max_turns (state self) = Some mt"
    by (simp add: assms exec_max_turns) (simp add: started_def initial_state_def new_orchestrator_def)
  have c: "get_max_turns self s \<le> get_turn_index s \<longrightarrow> route self s = Inr (s\<lparr>mode := Some Done\<rparr>)"
    by (simp add: route_def stopping_def)
  have d: "get_turn_index (state (apply_op l NextQuestion self)) = get_turn_index (state self)"
    "get_turn_index (state (apply_op l StreamNextQuestion self)) = get_turn_index (state self)"
    "get_turn_index (state (apply_op l Stop self)) = get_turn_index (state self)"
    by (simp_all add: apply_op_def get_turn_index_def next_question_fields
          stream_next_question_fields stop_def)
  from a b c d process_user_answer_fields [of l a self d] show ?thesis by blast
qed

lemma turn_index_turned:
  "turn_index (settled self (counted (asked r' (routed self (judged r (answered a s)))))) =
     Some (get_turn_index s + 1)"
  by (simp add: settled_def counted_def asked_def routed_def judged_def answered_def
        get_turn_index_def)

lemma max_turns_turned:
  "max_turns (settled self (counted (asked r' (routed self (judged r (answered a s)))))) =
     max_turns s"
  by (simp add: settled_def counted_def asked_def routed_def judged_def answered_def)

lemma force_stop_turned:
  "force_stop (settled self (counted (asked r' (routed self (judged r (answered a s)))))) =
     force_stop s"
  by (simp add: settled_def counted_def asked_def routed_def judged_def answered_def)

text \<open>
  C5 as stated fails: with \<open>max_turns = 1\<close>, one question, its answer, and one more
  submitted answer leave \<open>turn_index = 2\<close>.
\<close>

theorem turn_index_overrun_counterexample:
  "turn_index (state overrun_session) = Some 2 \<and> max_turns (state overrun_session) = Some 1"
proof -
  define o1 where "o1 = (sample_orchestrator 1)\<lparr>state := (state (sample_orchestrator 1))
      \<lparr>current_agent := Some ''Domain Expert'', last_question := Some ''Q'',
       mode := Some AwaitAnswer\<rparr>\<rparr>"
  have s1: "apply_op (llm_const ''Q'') NextQuestion (sample_orchestrator 1) = o1"
    by (simp add: apply_op_def next_question_sample strip_def is_space_def o1_def)
  have f1: "app o1" "\<not> stopping o1 (state o1)" "length (panel o1) = 3"
    "current_agent (state o1) = Some ''Domain Expert''"
    "speaker o1 (state o1) = ''Domain Expert''"
    "turn_index (state o1) = Some 0" "max_turns (state o1) = Some 1"
    "force_stop (state o1) = Some False"
    by (simp_all add: o1_def sample_state_simps sample_panel_def speaker_def entry_name_def
          stopping_def get_force_stop_def get_turn_index_def get_max_turns_def)
  define o2 where "o2 = o1\<lparr>state := settled o1 (counted (asked (Some ''fine'') (routed o1
               (judged (Some ''fine'') (answered ''a'' (state o1))))))\<rparr>"
  have "process_user_answer (llm_const ''fine'') ''a'' o1 =
     (Inr (stopping o1 (counted (state o1))),
      o1\<lparr>state := settled o1 (counted (asked (Some ''fine'') (routed o1
               (judged (Some ''fine'') (answered ''a'' (state o1))))))\<rparr>,
      [Invoke (speaker_prompt o1 ''Domain Expert'') (feedback_prompt (answered ''a'' (state o1))),
       Invoke (speaker_prompt o1 (speaker o1 (state o1)))
         (ask_prompt (judged (Some ''fine'') (answered ''a'' (state o1))))])"
    by (intro process_user_answer_turn) (simp_all add: f1 llm_const_def)
  then have s2: "apply_op (llm_const ''fine'') (ProcessUserAnswer ''a'') o1 = o2"
    by (simp add: apply_op_def o2_def)
  have t2: "turn_index (state o2) = Some 1" "max_turns (state o2) = Some 1"
    by (simp_all add: o2_def turn_index_turned max_turns_turned f1 get_turn_index_def)
  have f2: "app o2" "stopping o2 (state o2)"
    using t2 f1(1) by (simp_all add: stopping_def get_turn_index_def get_max_turns_def)
       (simp add: o2_def)
  have s3: "apply_op (llm_const ''fine'') (ProcessUserAnswer ''b'') o2 =
      o2\<lparr>state := (counted (answered ''b'' (state o2)))\<lparr>mode := Some Done\<rparr>\<rparr>"
    by (simp add: apply_op_def process_user_answer_done [OF f2])
  have e: "overrun_session =
      apply_op (llm_const ''fine'') (ProcessUserAnswer ''b'')
        (apply_op (llm_const ''fine'') (ProcessUserAnswer ''a'')
          (apply_op (llm_const ''Q'') NextQuestion (sample_orchestrator 1)))"
    by (simp add: overrun_session_def exec_def)
  show ?thesis
    unfolding e s1 s2 s3 using t2
    by (simp add: counted_def answered_def get_turn_index_def)
qed

text \<open>
  The interrupted sample session: turn 0 of 8, routing at turn 8 ends it, an accepted
  answer moves it to turn 1, a failed \<open>next_question\<close> leaves it at turn 0.
\<close>

theorem turn_index_progress_witness:
  "0 \<le> get_turn_index (state interrupted_session) \<and>
   max_turns (state interrupted_session) = Some 8 \<and>
   route interrupted_session ((state interrupted_session)\<lparr>turn_index := Some 8\<rparr>) =
     Inr ((state interrupted_session)\<lparr>turn_index := Some 8, mode := Some Done\<rparr>) \<and>
   get_turn_index (state (fst (snd (process_user_answer (llm_const ''fine'') ''my answer''
      interrupted_session)))) = 1 \<and>
   get_turn_index (state (apply_op llm_down NextQuestion interrupted_session)) = 0"
proof -
  have a: "interrupted_session =
      exec [(llm_const ''Q1'', NextQuestion), (llm_down, NextQuestion)]
        (started sample_panel ''notes'' 8)"
    by (simp add: interrupted_session_def sample_orchestrator_def)
  have p: "process_user_answer (llm_const ''fine'') ''my answer'' interrupted_session =
     (Inr (stopping interrupted_session (counted (state interrupted_session))),
      interrupted_session\<lparr>state := settled interrupted_session
         (counted (asked (Some ''fine'') (routed interrupted_session
            (judged (Some ''fine'') (answered ''my answer'' (state interrupted_session))))))\<rparr>,
      [Invoke (speaker_prompt interrupted_session ''Domain Expert'')
         (feedback_prompt (answered ''my answer'' (state interrupted_session))),
       Invoke (speaker_prompt interrupted_session
           (speaker interrupted_session (state interrupted_session)))
         (ask_prompt (judged (Some ''fine'') (answered ''my answer'' (state interrupted_session))))])"
    by (intro process_user_answer_turn) (simp_all add: interrupted_facts llm_const_def)
  have t0: "get_turn_index (state interrupted_session) = 0"
    "get_max_turns interrupted_session ((state interrupted_session)\<lparr>turn_index := Some 8\<rparr>) = 8"
    "get_turn_index ((state interrupted_session)\<lparr>turn_index := Some 8\<rparr>) = 8"
    by (simp_all add: interrupted_session_state sample_state_simps get_turn_index_def get_max_turns_def)
  from turn_index_progress [OF a,
      of "(state interrupted_session)\<lparr>turn_index := Some 8\<rparr>"
         "llm_const ''fine''" "''my answer''"
         "stopping interrupted_session (counted (state interrupted_session))"]
    turn_index_progress [OF a, of "state interrupted_session" llm_down "''x''" True]
  show ?thesis
    by (simp add: t0 p)
qed

section \<open>A two-turn interview\<close>

lemma current_agent_turned:
  "current_agent (settled self (counted (asked r' (routed self (judged r (answered a s)))))) =
     Some (speaker self s)"
  by (simp add: settled_def counted_def asked_def routed_def judged_def answered_def
        speaker_def get_turn_index_def)

lemma mode_turned:
  "\<not> stopping self (counted s) \<Longrightarrow>
   mode (settled self (counted (asked r' (routed self (judged r (answered a s)))))) =
     Some AwaitAnswer"
proof -
  assume a: "\<not> stopping self (counted s)"
  have "stopping self (counted (asked r' (routed self (judged r (answered a s))))) =
        stopping self (counted s)"
    by (rule stopping_cong)
       (simp_all add: counted_def asked_def routed_def judged_def answered_def get_turn_index_def)
  with a show ?thesis
    by (simp add: settled_def) (simp add: counted_def asked_def)
qed

lemma returns_cases:
  assumes "\<forall>sp u. complete l sp u \<noteq> Raises"
  obtains r where "complete l sp u = Returns r"
  using assms by (cases "complete l sp u") auto

lemma two_turn_run:
  assumes len: "length p = 3"
    and n0: "entry_name 0 (p ! 0) \<noteq> []" and n1: "entry_name 1 (p ! 1) \<noteq> []"
    and ok: "\<forall>sp u. complete l sp u \<noteq> Raises"
  shows "(\<exists>q. fst (step1 l p notes) = Inr (q, entry_name 0 (p ! 0), False)) \<and>
    mode (state (fst (snd (step1 l p notes)))) = Some AwaitAnswer \<and>
    fst (step2 l p notes) = Inr False \<and>
    length (get_history (state (fst (snd (step2 l p notes))))) = 1 \<and>
    turn_index (state (fst (snd (step2 l p notes)))) = Some 1 \<and>
    current_agent (state (fst (snd (step2 l p notes)))) = Some (entry_name 0 (p ! 0)) \<and>
    (\<exists>q. fst (step3 l p notes) = Inr (q, entry_name 1 (p ! 1), False)) \<and>
    fst (step4 l p notes) = Inr True \<and>
    length (get_history (state (fst (snd (step4 l p notes))))) = 2"
proof -
  define o0 where "o0 = started p notes 2"
  have f0: "app o0" "\<not> stopping o0 (state o0)" "length (panel o0) = 3"
    "speaker o0 (state o0) = entry_name 0 (p ! 0)" "get_history (state o0) = []"
    using len
    by (simp_all add: o0_def started_def initial_state_def new_orchestrator_def stopping_def get_force_stop_def
          get_turn_index_def get_max_turns_def speaker_def get_history_def)
  obtain r1 where r1: "complete l (speaker_prompt o0 (speaker o0 (state o0))) (ask_prompt (state o0)) = Returns r1"
    using ok by (rule returns_cases)
  define o1 where "o1 = o0\<lparr>state := (state o0)\<lparr>current_agent := Some (speaker o0 (state o0)),
                 last_question := Some (strip (or_empty r1)), mode := Some AwaitAnswer\<rparr>\<rparr>"
  have s1: "step1 l p notes = (Inr (strip (or_empty r1), speaker o0 (state o0), False), o1,
      [Invoke (speaker_prompt o0 (speaker o0 (state o0))) (ask_prompt (state o0))])"
    unfolding step1_def o0_def [symmetric] o1_def
    using f0(1,2,3) n0 r1 by (intro next_question_asks) (simp_all add: f0(4))
  have f1: "app o1" "\<not> stopping o1 (state o1)" "length (panel o1) = 3"
    "current_agent (state o1) = Some (entry_name 0 (p ! 0))"
    "speaker o1 (state o1) = entry_name 0 (p ! 0)" "get_history (state o1) = []"
    "\<not> stopping o1 (counted (state o1))" "mode (state o1) = Some AwaitAnswer"
    "panel o1 = p"
    using len
    by (simp_all add: o1_def o0_def started_def initial_state_def new_orchestrator_def stopping_def
          get_force_stop_def get_turn_index_def get_max_turns_def speaker_def get_history_def
          counted_def)
  obtain r2 where r2: "complete l (speaker_prompt o1 (entry_name 0 (p ! 0)))
        (feedback_prompt (answered ''answer A'' (state o1))) = Returns r2"
    using ok by (rule returns_cases)
  obtain r2' where r2': "complete l (speaker_prompt o1 (speaker o1 (state o1)))
        (ask_prompt (judged r2 (answered ''answer A'' (state o1)))) = Returns r2'"
    using ok by (rule returns_cases)
  define o2 where "o2 = o1\<lparr>state := settled o1
         (counted (asked r2' (routed o1 (judged r2 (answered ''answer A'' (state o1))))))\<rparr>"
  have s2: "step2 l p notes = (Inr (stopping o1 (counted (state o1))), o2,
      [Invoke (speaker_prompt o1 (entry_name 0 (p ! 0))) (feedback_prompt (answered ''answer A'' (state o1))),
       Invoke (speaker_prompt o1 (speaker o1 (state o1)))
         (ask_prompt (judged r2 (answered ''answer A'' (state o1))))])"
    unfolding step2_def s1 o2_def
    using f1(1,2,3,4) n0 r2 r2' by (simp only: fst_conv snd_conv) (intro process_user_answer_turn, simp_all add: f1(5))
  have t2: "turn_index (state o2) = Some 1" "max_turns (state o2) = Some 2"
    "force_stop (state o2) = Some False"
    "current_agent (state o2) = Some (entry_name 0 (p ! 0))"
    "length (get_history (state o2)) = 1"
    by (simp_all add: o2_def turn_index_turned max_turns_turned force_stop_turned
          current_agent_turned history_turned f1)
       (simp_all add: o1_def o0_def started_def initial_state_def new_orchestrator_def get_turn_index_def)
  have m2: "mode (state o2) = Some AwaitAnswer"
    by (simp add: o2_def mode_turned [OF f1(7)])
  have f2: "app o2" "\<not> stopping o2 (state o2)" "length (panel o2) = 3"
    "speaker o2 (state o2) = entry_name 1 (p ! 1)" "panel o2 = p"
    using t2 f1(1,3,9)
    by (simp_all add: stopping_def get_force_stop_def get_turn_index_def get_max_turns_def speaker_def)
       (simp_all add: o2_def)
  obtain r3 where r3: "complete l (speaker_prompt o2 (speaker o2 (state o2))) (ask_prompt (state o2)) = Returns r3"
    using ok by (rule returns_cases)
  define o3 where "o3 = o2\<lparr>state := (state o2)\<lparr>current_agent := Some (speaker o2 (state o2)),
                 last_question := Some (strip (or_empty r3)), mode := Some AwaitAnswer\<rparr>\<rparr>"
  have s3: "step3 l p notes = (Inr (strip (or_empty r3), speaker o2 (state o2), False), o3,
      [Invoke (speaker_prompt o2 (speaker o2 (state o2))) (ask_prompt (state o2))])"
    unfolding step3_def s2 o3_def
    using f2(1,2,3) n1 r3 by (simp only: fst_conv snd_conv) (intro next_question_asks, simp_all add: f2(4))
  have f3: "app o3" "\<not> stopping o3 (state o3)" "length (panel o3) = 3"
    "current_agent (state o3) = Some (entry_name 1 (p ! 1))"
    "speaker o3 (state o3) = entry_name 1 (p ! 1)" "length (get_history (state o3)) = 1"
    "stopping o3 (counted (state o3))"
    using t2 f2
    by (simp_all add: o3_def stopping_def get_force_stop_def get_turn_index_def get_max_turns_def
          speaker_def get_history_def counted_def)
  obtain r4 where r4: "complete l (speaker_prompt o3 (entry_name 1 (p ! 1)))
        (feedback_prompt (answered ''answer B'' (state o3))) = Returns r4"
    using ok by (rule returns_cases)
  obtain r4' where r4': "complete l (speaker_prompt o3 (speaker o3 (state o3)))
        (ask_prompt (judged r4 (answered ''answer B'' (state o3)))) = Returns r4'"
    using ok by (rule returns_cases)
  have s4: "step4 l p notes = (Inr (stopping o3 (counted (state o3))),
      o3\<lparr>state := settled o3
         (counted (asked r4' (routed o3 (judged r4 (answered ''answer B'' (state o3))))))\<rparr>,
      [Invoke (speaker_prompt o3 (entry_name 1 (p ! 1))) (feedback_prompt (answered ''answer B'' (state o3))),
       Invoke (speaker_prompt o3 (speaker o3 (state o3)))
         (ask_prompt (judged r4 (answered ''answer B'' (state o3))))])"
    unfolding step4_def s3
    using f3(1,2,3,4) n1 r4 r4' by (simp only: fst_conv snd_conv) (intro process_user_answer_turn, simp_all add: f3(5))
  show ?thesis
    by (simp add: s1 s2 s3 s4 f0 f1 f2 f3 t2 history_turned)
qed

text \<open>
  Claim C6, as the code has it. A session with a three-entry panel whose first two entries
  have a non-empty name (an entry without a name counts under its default name,
  \<open>Expert 1\<close> or \<open>Expert 2\<close>) and \<open>max_turns = 2\<close>, with a service that never raises: the first
  \<open>next_question\<close> returns entry 0 as agent and leaves \<open>mode = await_answer\<close>; the
  first \<open>process_user_answer\<close> returns \<open>False\<close> with one turn in the history,
  \<open>turn_index = 1\<close> and \<open>current_agent\<close> still the name of entry 0 (the graph routes
  again before the counter is incremented); the second \<open>next_question\<close> returns
  entry 1; the second \<open>process_user_answer\<close> returns \<open>True\<close> with two turns in the
  history.
\<close>

theorem two_turn_interview:
  assumes "length p = 3"
    and "entry_name 0 (p ! 0) \<noteq> []" and "entry_name 1 (p ! 1) \<noteq> []"
    and "\<forall>sp u. complete l sp u \<noteq> Raises"
  shows "(\<exists>q. fst (step1 l p notes) = Inr (q, entry_name 0 (p ! 0), False)) \<and>
    mode (state (fst (snd (step1 l p notes)))) = Some AwaitAnswer \<and>
    fst (step2 l p notes) = Inr False \<and>
    length (get_history (state (fst (snd (step2 l p notes))))) = 1 \<and>
    turn_index (state (fst (snd (step2 l p notes)))) = Some 1 \<and>
    current_agent (state (fst (snd (step2 l p notes)))) = Some (entry_name 0 (p ! 0)) \<and>
    (\<exists>q. fst (step3 l p notes) = Inr (q, entry_name 1 (p ! 1), False)) \<and>
    fst (step4 l p notes) = Inr True \<and>
    length (get_history (state (fst (snd (step4 l p notes))))) = 2"
  using assms by (rule two_turn_run)

lemma sample_names:
  "entry_name 0 (sample_panel ! 0) = ''Domain Expert''"
  "entry_name 1 (sample_panel ! 1) = ''Systems Expert''"
  "name (sample_panel ! 1) = Some ''Systems Expert''"
  by (simp_all add: sample_panel_def entry_name_def)

lemma sample_scenario:
  "length sample_panel = 3" "entry_name 0 (sample_panel ! 0) \<noteq> []"
  "entry_name 1 (sample_panel ! 1) \<noteq> []" "\<forall>sp u. complete (llm_const ''Q'') sp u \<noteq> Raises"
  by (simp_all add: sample_panel_def entry_name_def llm_const_def)

text \<open>
  C6 as stated fails. On the sample panel, after the first answer \<open>current_agent\<close> is
  the name of entry 0, not that of entry 1. On a panel whose first entry has an empty name
  the first \<open>next_question\<close> calls nobody and leaves \<open>mode = ask\<close>; on a panel whose
  second entry has an empty name the second answer is not recorded and the history has one
  turn at the end.
\<close>

theorem two_turn_scenario_counterexample:
  "fst (step2 (llm_const ''Q'') sample_panel ''notes'') = Inr False \<and>
   current_agent (state (fst (snd (step2 (llm_const ''Q'') sample_panel ''notes'')))) =
     Some ''Domain Expert'' \<and>
   name (sample_panel ! 1) = Some ''Systems Expert'' \<and>
   length blank_first_panel = 3 \<and>
   fst (step1 (llm_const ''Q'') blank_first_panel ''notes'') = Inr ([], [], False) \<and>
   mode (state (fst (snd (step1 (llm_const ''Q'') blank_first_panel ''notes'')))) = Some Ask \<and>
   length blank_second_panel = 3 \<and>
   fst (step4 (llm_const ''Q'') blank_second_panel ''notes'') = Inr True \<and>
   length (get_history (state (fst (snd (step4 (llm_const ''Q'') blank_second_panel ''notes''))))) = 1"
proof -
  note r = two_turn_run [OF sample_scenario, of "''notes''", unfolded sample_names]
  have b1: "length blank_first_panel = 3 \<and>
   fst (step1 (llm_const ''Q'') blank_first_panel ''notes'') = Inr ([], [], False) \<and>
   mode (state (fst (snd (step1 (llm_const ''Q'') blank_first_panel ''notes'')))) = Some Ask"
    by code_simp
  have b2: "length blank_second_panel = 3 \<and>
   fst (step4 (llm_const ''Q'') blank_second_panel ''notes'') = Inr True \<and>
   length (get_history (state (fst (snd (step4 (llm_const ''Q'') blank_second_panel ''notes''))))) = 1"
    by code_simp
  from r sample_names(3) b1 b2 show ?thesis by blast
qed

text \<open>
  The scenario on the sample panel with a service that always answers \<open>Q\<close>.
\<close>

theorem two_turn_interview_witness:
  "(\<exists>q. fst (step1 (llm_const ''Q'') sample_panel ''notes'') = Inr (q, ''Domain Expert'', False)) \<and>
   mode (state (fst (snd (step1 (llm_const ''Q'') sample_panel ''notes'')))) = Some AwaitAnswer \<and>
   fst (step2 (llm_const ''Q'') sample_panel ''notes'') = Inr False \<and>
   length (get_history (state (fst (snd (step2 (llm_const ''Q'') sample_panel ''notes''))))) = 1 \<and>
   turn_index (state (fst (snd (step2 (llm_const ''Q'') sample_panel ''notes'')))) = Some 1 \<and>
   (\<exists>q. fst (step3 (llm_const ''Q'') sample_panel ''notes'') = Inr (q, ''Systems Expert'', False)) \<and>
   fst (step4 (llm_const ''Q'') sample_panel ''notes'') = Inr True \<and>
   length (get_history (state (fst (snd (step4 (llm_const ''Q'') sample_panel ''notes''))))) = 2"
proof -
  note r = two_turn_interview [OF sample_scenario, of "''notes''", unfolded sample_names]
  from r show ?thesis by blast
qed

section \<open>The step limit is never reached\<close>

text \<open>
  A walk visits at most four nodes, so it never ends with the graph library's recursion
  error: every error of \<open>invoke\<close> is one a node raised.
\<close>

lemma run_sme_no_limit:
  assumes "mode s \<noteq> Some Feedback" and "mode s \<noteq> Some Route"
  shows "fst (run (Suc n) self l (N_sme i) s) \<noteq> Inl (GraphRecursionError, sr)"
proof (cases "i < length (panel self) \<and> i < 3")
  case False
  then show ?thesis by auto
next
  case True
  obtain e s' t where nd: "node (sme_prompt (panel self ! i)) l s = (e, s', t)"
    by (cases "node (sme_prompt (panel self ! i)) l s") auto
  show ?thesis
  proof (cases e)
    case (Some err)
    with nd have "err = GenerationError"
      by (auto simp: node_def Let_def split: if_splits llm_result.splits)
    with Some nd True show ?thesis by simp
  next
    case None
    with nd assms have "mode s' \<noteq> Some Route"
      by (auto simp: node_def Let_def split: if_splits llm_result.splits)
    then have "from_sme_cond s' = N_end" by (simp add: from_sme_cond_def)
    with None nd True show ?thesis by simp
  qed
qed

lemma run_route_no_limit:
  assumes "mode s \<noteq> Some Feedback"
  shows "fst (run (Suc (Suc n)) self l N_route s) \<noteq> Inl (GraphRecursionError, sr)"
proof (cases "route self s")
  case (Inl e)
  then have "e = ZeroDivisionError" by (auto simp: route_def Let_def split: if_splits)
  with Inl show ?thesis by simp
next
  case (Inr s1)
  with assms have m: "mode s1 \<noteq> Some Feedback" "mode s1 \<noteq> Some Route" "mode s1 \<noteq> None"
    by (auto simp: route_def Let_def split: if_splits)
  show ?thesis
  proof (cases "from_route_cond self s1")
    case N_route
    then show ?thesis by (simp add: from_route_cond_def split: if_splits option.splits)
  next
    case (N_sme i)
    with Inr run_sme_no_limit [OF m(1,2), of n self l i] show ?thesis by simp
  next
    case N_done
    with Inr show ?thesis by simp
  next
    case N_end
    with Inr show ?thesis by simp
  qed
qed

lemma run_no_limit:
  "fst (run (Suc (Suc (Suc (Suc n)))) self l N_route s) \<noteq> Inl (GraphRecursionError, sr)"
proof (cases "mode s = Some Feedback")
  case False
  then show ?thesis by (rule run_route_no_limit)
next
  case fb: True
  show ?thesis
  proof (cases "route self s")
    case (Inl e)
    then have "e = ZeroDivisionError" by (auto simp: route_def Let_def split: if_splits)
    with Inl show ?thesis by simp
  next
    case (Inr s1)
    show ?thesis
    proof (cases "from_route_cond self s1")
      case N_route
      then show ?thesis by (simp add: from_route_cond_def split: if_splits option.splits)
    next
      case N_done
      with Inr show ?thesis by simp
    next
      case N_end
      with Inr show ?thesis by simp
    next
      case (N_sme i)
      show ?thesis
      proof (cases "i < length (panel self) \<and> i < 3")
        case False
        with Inr N_sme show ?thesis by auto
      next
        case True
        obtain e s2 t where nd: "node (sme_prompt (panel self ! i)) l s1 = (e, s2, t)"
          by (cases "node (sme_prompt (panel self ! i)) l s1") auto
        show ?thesis
        proof (cases e)
          case (Some err)
          with nd have "err = GenerationError"
            by (auto simp: node_def Let_def split: if_splits llm_result.splits)
          with Some nd True Inr N_sme show ?thesis by simp
        next
          case None
          have "fst (run (Suc (Suc n)) self l (from_sme_cond s2) s2) \<noteq> Inl (GraphRecursionError, sr)"
          proof (cases "mode s2 = Some Route")
            case True
            then have "from_sme_cond s2 = N_route" "mode s2 \<noteq> Some Feedback"
              by (simp_all add: from_sme_cond_def)
            then show ?thesis using run_route_no_limit [of s2 n self l] by simp
          next
            case False
            then show ?thesis by (simp add: from_sme_cond_def)
          qed
          with None nd True Inr N_sme show ?thesis
            by (auto split: prod.splits)
        qed
      qed
    qed
  qed
qed

lemma invoke_no_limit: "fst (invoke self l s) \<noteq> Inl (GraphRecursionError, sr)"
  unfolding invoke_run4 by (rule run_no_limit)

end
